theory Spec2Isabelle
  imports Main "HOL-Library.Word"
begin

unbundle bit_operations_syntax

section \<open>Data model\<close>

text \<open>
  \<open>byte_t\<close> is an unsigned 8-bit value. An \<open>APDU\<close> is a length and a byte array
  (\<open>struct APDU { size_t size; byte_t data[...]; }\<close>). The list \<open>apdu_data\<close> holds the
  bytes of the array that have a value: the whole zeroed array in a member of
  \<open>CCInfo\<close>, the copied bytes in a value that \<open>executeCommand\<close> returns (the local
  variable is not initialised, and what lies behind the copy has no defined value). The
  failure value \<open>{0, {0}}\<close> is modelled by length 0 and no bytes: its zero fill is never
  read, since every caller tests the length first.
\<close>

type_synonym byte_t = "8 word"

record APDU =
  apdu_size :: nat
  apdu_data :: "byte_t list"

text \<open>
  The two static members of \<open>ApplicationHelper\<close>: the result of the last exchange
  (\<open>szRx\<close>, an \<open>int\<close>, negative on a transport error) and the receive buffer
  (\<open>abtRx\<close>, the whole array of \<open>MAX_FRAME_LEN\<close> bytes, of which the reply is the
  first \<open>szRx\<close>).
\<close>

record rx =
  szRx :: int
  abtRx :: "byte_t list"

text \<open>
  \<open>pn53x_transceive\<close> belongs to the reader driver. It is a parameter of the model: from
  the state of the device and the command it gives the next state of the device, the
  returned length and the contents of the receive buffer.
\<close>

type_synonym 'd transceive = "'d \<Rightarrow> byte_t list \<Rightarrow> 'd \<times> int \<times> byte_t list"

datatype error = OutOfBounds | OutOfRange

section \<open>The command executor\<close>

text \<open>\<open>ApplicationHelper::checkTrailer\<close>: \<open>True\<close> means that the reply is refused.\<close>

definition checkTrailer :: "rx \<Rightarrow> bool" where
  "checkTrailer r =
     (if szRx r < 2 then True
      else if abtRx r ! nat (szRx r - 2) = 0x90 \<and> abtRx r ! nat (szRx r - 1) = 0 then False
      else True)"

text \<open>
  The part of \<open>ApplicationHelper::executeCommand\<close> that follows the exchange: the failure
  value, or \<open>szRx - 1\<close> bytes copied from \<open>abtRx + 1\<close>.
\<close>

definition executeCommand_ret :: "rx \<Rightarrow> APDU" where
  "executeCommand_ret r =
     (if szRx r < 0 \<or> checkTrailer r then \<lparr>apdu_size = 0, apdu_data = []\<rparr>
      else \<lparr>apdu_size = nat (szRx r - 1),
             apdu_data = take (nat (szRx r - 1)) (drop 1 (abtRx r))\<rparr>)"

text \<open>
  \<open>ApplicationHelper::executeCommand\<close>: one exchange; the result is the new state of the
  device, the new static members and the returned \<open>APDU\<close>.
\<close>

definition executeCommand :: "'d transceive \<Rightarrow> 'd \<Rightarrow> byte_t list \<Rightarrow> 'd \<times> rx \<times> APDU" where
  "executeCommand tr dev command =
     (case tr dev command of
        (dev', n, buf) \<Rightarrow>
          (dev', \<lparr>szRx = n, abtRx = buf\<rparr>, executeCommand_ret \<lparr>szRx = n, abtRx = buf\<rparr>))"

text \<open>The reply of an exchange: the first \<open>szRx\<close> bytes of the receive buffer.\<close>

definition reply :: "rx \<Rightarrow> byte_t list" where
  "reply r = take (nat (szRx r)) (abtRx r)"

text \<open>
  What the specification says of a successful exchange: the payload is the reply with
  the two trailing status bytes removed.
\<close>

definition spec_payload :: "byte_t list \<Rightarrow> byte_t list" where
  "spec_payload rep = take (length rep - 2) rep"

text \<open>
  A scripted device for the examples: its state is the list of the answers it still has to
  give; when the list is empty it reports a transport error.
\<close>

fun scripted :: "(int \<times> byte_t list) list transceive" where
  "scripted [] command = ([], - 1, [])"
| "scripted ((n, buf) # rest) command = (rest, n, buf)"

text \<open>
  A recording device: it answers as \<open>tr\<close> does and keeps the list of the exchanges made
  so far, each with its command, the returned length and the receive buffer.
\<close>

type_synonym exchange = "byte_t list \<times> int \<times> byte_t list"

definition logging :: "'d transceive \<Rightarrow> ('d \<times> exchange list) transceive" where
  "logging tr = (\<lambda>(dev, log) command.
     case tr dev command of (dev', n, buf) \<Rightarrow> ((dev', log @ [(command, n, buf)]), n, buf))"

text \<open>The command of a recorded exchange, and what \<open>executeCommand\<close> returned for it.\<close>

definition sent :: "exchange \<Rightarrow> byte_t list" where
  "sent x = fst x"

definition returned :: "exchange \<Rightarrow> APDU" where
  "returned x = executeCommand_ret \<lparr>szRx = fst (snd x), abtRx = snd (snd x)\<rparr>"

section \<open>Memory\<close>

text \<open>
  A read or a write of an array at an index past its end has no defined result in the
  program; the model returns \<open>OutOfBounds\<close> there. \<open>std::map::at\<close> on a missing key
  throws \<open>std::out_of_range\<close>; the model returns \<open>OutOfRange\<close>.
\<close>

definition bindE :: "error + 'a \<Rightarrow> ('a \<Rightarrow> error + 'b) \<Rightarrow> error + 'b" where
  "bindE m f = (case m of Inl e \<Rightarrow> Inl e | Inr x \<Rightarrow> f x)"

lemma bindE_Inr [simp]: "bindE (Inr x) f = f x"
  by (simp add: bindE_def)

lemma bindE_Inl [simp]: "bindE (Inl e) f = Inl e"
  by (simp add: bindE_def)

lemma bindE_InrE:
  assumes "bindE m f = Inr r"
  obtains x where "m = Inr x" and "f x = Inr r"
  using assms by (cases m) (auto simp: bindE_def)

definition rd :: "'a list \<Rightarrow> nat \<Rightarrow> error + 'a" where
  "rd xs i = (if i < length xs then Inr (xs ! i) else Inl OutOfBounds)"

definition wr :: "'a list \<Rightarrow> nat \<Rightarrow> 'a \<Rightarrow> error + 'a list" where
  "wr xs i v = (if i < length xs then Inr (xs[i := v]) else Inl OutOfBounds)"

text \<open>
  \<open>memcpy(dst + doff, src + soff, n)\<close>: the \<open>n\<close> bytes must lie inside both arrays.
\<close>

definition memcpy :: "'a list \<Rightarrow> nat \<Rightarrow> 'a list \<Rightarrow> nat \<Rightarrow> nat \<Rightarrow> error + 'a list" where
  "memcpy dst doff src soff n =
     (if doff + n \<le> length dst \<and> soff + n \<le> length src
      then Inr (take doff dst @ take n (drop soff src) @ drop (doff + n) dst)
      else Inl OutOfBounds)"

section \<open>Applications and their selection\<close>

text \<open>
  \<open>struct Application\<close>: the identifier array, the name array and the priority. The sizes
  of the two arrays are the lengths of the lists; \<open>sizeof(app.aid)\<close> is
  \<open>length (aid app)\<close>.
\<close>

record Application =
  aid :: "byte_t list"
  name :: "byte_t list"
  priority :: byte_t

text \<open>
  The loop of \<open>ApplicationHelper::selectByPriority\<close>: the first entry with the given
  priority, or the local variable \<open>app\<close> as it was declared.
\<close>

fun selectByPriority_pick :: "Application \<Rightarrow> Application list \<Rightarrow> byte_t \<Rightarrow> Application" where
  "selectByPriority_pick app [] p = app"
| "selectByPriority_pick app (a # as) p =
     (if priority a = p then a else selectByPriority_pick app as p)"

text \<open>
  The construction of the command in \<open>selectByPriority\<close>: a zeroed array of 256 bytes,
  the header, the length byte, the identifier; \<open>size\<close> is a \<open>byte_t\<close> and wraps. The
  command that is sent is the first \<open>size\<close> bytes of the array. \<open>header\<close> stands for
  \<open>Command::SELECT_APP_HEADER\<close>.
\<close>

definition selectByPriority_command :: "byte_t list \<Rightarrow> Application \<Rightarrow> error + byte_t list" where
  "selectByPriority_command header app =
     bindE (memcpy (replicate 256 0) 0 header 0 (length header)) (\<lambda>b1.
       let size1 = (of_nat (length header) :: byte_t) in
       bindE (wr b1 (unat size1) (of_nat (length (aid app)))) (\<lambda>b2.
         let size2 = size1 + 1 in
         bindE (memcpy b2 (unat size2) (aid app) 0 (length (aid app))) (\<lambda>b3.
           let size3 = size2 + of_nat (length (aid app));
               size4 = size3 + 1
           in Inr (take (unat size4) b3))))"

text \<open>
  \<open>ApplicationHelper::selectByPriority\<close>; \<open>app0\<close> is the value of the local variable
  \<open>app\<close> before the loop.
\<close>

definition selectByPriority ::
  "'d transceive \<Rightarrow> 'd \<Rightarrow> byte_t list \<Rightarrow> Application \<Rightarrow> Application list \<Rightarrow> byte_t
     \<Rightarrow> error + ('d \<times> rx \<times> APDU)" where
  "selectByPriority tr dev header app0 list p =
     bindE (selectByPriority_command header (selectByPriority_pick app0 list p))
       (\<lambda>command. Inr (executeCommand tr dev command))"

section \<open>The card record\<close>

text \<open>The members of \<open>CCInfo\<close>, without the leading underscore of their names.\<close>

record CCInfo =
  application :: Application
  languagePreference :: "byte_t list"
  cardholderName :: "byte_t list"
  pdol :: APDU
  track1DiscretionaryData :: APDU
  track2EquivalentData :: APDU
  logSFI :: byte_t
  logCount :: byte_t
  logFormat :: APDU
  logEntries :: "APDU list"

text \<open>
  The constructor \<open>CCInfo::CCInfo()\<close>: every array zeroed, every length 0. The sizes of
  the arrays come from the class declaration and are parameters here: \<open>cap\<close> bytes in an
  \<open>APDU\<close>, \<open>nl\<close> and \<open>nc\<close> bytes in the two strings, \<open>ne\<close> log entries. The
  member \<open>_application\<close> is left as declared (\<open>app0\<close>).
\<close>

definition CCInfo_new :: "Application \<Rightarrow> nat \<Rightarrow> nat \<Rightarrow> nat \<Rightarrow> nat \<Rightarrow> CCInfo" where
  "CCInfo_new app0 cap nl nc ne =
     \<lparr>application = app0,
      languagePreference = replicate nl 0,
      cardholderName = replicate nc 0,
      pdol = \<lparr>apdu_size = 0, apdu_data = replicate cap 0\<rparr>,
      track1DiscretionaryData = \<lparr>apdu_size = 0, apdu_data = replicate cap 0\<rparr>,
      track2EquivalentData = \<lparr>apdu_size = 0, apdu_data = replicate cap 0\<rparr>,
      logSFI = 0,
      logCount = 0,
      logFormat = \<lparr>apdu_size = 0, apdu_data = replicate cap 0\<rparr>,
      logEntries = replicate ne \<lparr>apdu_size = 0, apdu_data = replicate cap 0\<rparr>\<rparr>"

subsection \<open>Fetching the log\<close>

text \<open>
  The loop of \<open>CCInfo::extractLogEntries\<close>: \<open>rr\<close> is the local array \<open>readRecord\<close>,
  \<open>n\<close> the log count, \<open>r\<close> the static members of \<open>ApplicationHelper\<close>.
\<close>

function extractLogEntries_loop ::
  "'d transceive \<Rightarrow> byte_t list \<Rightarrow> nat \<Rightarrow> nat \<Rightarrow> 'd \<Rightarrow> rx \<Rightarrow> CCInfo
     \<Rightarrow> error + (int \<times> CCInfo \<times> 'd \<times> rx)" where
  "extractLogEntries_loop tr rr n i dev r st =
     (if i < n then
        bindE (wr rr 4 (of_nat (i + 1))) (\<lambda>rr'.
          case executeCommand tr dev rr' of
            (dev', r', e) \<Rightarrow>
              bindE (wr (logEntries st) i e) (\<lambda>es.
                if apdu_size e = 0 then Inr (1, st\<lparr>logEntries := es\<rparr>, dev', r')
                else extractLogEntries_loop tr rr' n (i + 1) dev' r' (st\<lparr>logEntries := es\<rparr>)))
      else Inr (0, st, dev, r))"
  by pat_completeness auto
termination
  by (relation "measure (\<lambda>(tr, rr, n, i, dev, r, st). n - i)") auto

text \<open>
  \<open>CCInfo::extractLogEntries\<close>; \<open>getf\<close> stands for \<open>Command::GET_DATA_LOG_FORMAT\<close>
  and \<open>rrec\<close> for \<open>Command::READ_RECORD\<close>.
\<close>

definition extractLogEntries ::
  "'d transceive \<Rightarrow> 'd \<Rightarrow> byte_t list \<Rightarrow> byte_t list \<Rightarrow> CCInfo
     \<Rightarrow> error + (int \<times> CCInfo \<times> 'd \<times> rx)" where
  "extractLogEntries tr dev getf rrec st =
     (case executeCommand tr dev getf of
        (dev1, r1, fmt) \<Rightarrow>
          let st1 = st\<lparr>logFormat := fmt\<rparr> in
          if apdu_size fmt = 0 then Inr (1, st1, dev1, r1)
          else bindE (wr rrec 5 (push_bit 3 (logSFI st1) OR push_bit 2 1)) (\<lambda>rr.
                 extractLogEntries_loop tr rr (unat (logCount st1)) 0 dev1 r1 st1))"

section \<open>The record extractor\<close>

text \<open>
  \<open>buff[i] == x && buff[i + 1] == y\<close>: the second byte is read only when the first one
  matches.
\<close>

definition at2 :: "byte_t list \<Rightarrow> nat \<Rightarrow> byte_t \<Rightarrow> byte_t \<Rightarrow> error + bool" where
  "at2 buff i x y =
     bindE (rd buff i) (\<lambda>b.
       if b = x then bindE (rd buff (i + 1)) (\<lambda>b1. Inr (b1 = y)) else Inr False)"

text \<open>
  The three branches of the scan of \<open>CCInfo::extractBaseRecords\<close>, entered at the
  index \<open>i\<close> of the tag: each gives the index at the end of the body of the loop
  (\<open>i += len - 1\<close> after the increments) and the new record.
\<close>

definition extractBaseRecords_track2 :: "byte_t list \<Rightarrow> nat \<Rightarrow> CCInfo \<Rightarrow> error + (nat \<times> CCInfo)" where
  "extractBaseRecords_track2 buff i st =
     bindE (rd buff (i + 1)) (\<lambda>l.
       bindE (memcpy (apdu_data (track2EquivalentData st)) 0 buff (i + 2) (unat l)) (\<lambda>d.
         Inr (i + 2 + unat l - 1,
              st\<lparr>track2EquivalentData := \<lparr>apdu_size = unat l, apdu_data = d\<rparr>\<rparr>)))"

definition extractBaseRecords_name :: "byte_t list \<Rightarrow> nat \<Rightarrow> CCInfo \<Rightarrow> error + (nat \<times> CCInfo)" where
  "extractBaseRecords_name buff i st =
     bindE (rd buff (i + 2)) (\<lambda>len.
       bindE (if 2 < unat len then memcpy (cardholderName st) 0 buff (i + 3) (unat len)
              else Inr (cardholderName st)) (\<lambda>d.
         Inr (i + 3 + unat len - 1, st\<lparr>cardholderName := d\<rparr>)))"

definition extractBaseRecords_track1 :: "byte_t list \<Rightarrow> nat \<Rightarrow> CCInfo \<Rightarrow> error + (nat \<times> CCInfo)" where
  "extractBaseRecords_track1 buff i st =
     bindE (rd buff (i + 2)) (\<lambda>l.
       bindE (memcpy (apdu_data (track1DiscretionaryData st)) 0 buff (i + 3) (unat l)) (\<lambda>d.
         Inr (i + 3 + unat l - 1,
              st\<lparr>track1DiscretionaryData := \<lparr>apdu_size = unat l, apdu_data = d\<rparr>\<rparr>)))"

text \<open>The body of the scan at index \<open>i\<close>.\<close>

definition extractBaseRecords_tag :: "byte_t list \<Rightarrow> nat \<Rightarrow> nat \<Rightarrow> CCInfo \<Rightarrow> error + (nat \<times> CCInfo)" where
  "extractBaseRecords_tag buff sz i st =
     bindE (rd buff i) (\<lambda>b.
       if b = 0x57 \<and> apdu_size (track2EquivalentData st) = 0 then extractBaseRecords_track2 buff i st
       else
         bindE (if i + 1 < sz then at2 buff i 0x5F 0x20 else Inr False) (\<lambda>isName.
           if isName then extractBaseRecords_name buff i st
           else
             bindE (if i + 1 < sz \<and> apdu_size (track1DiscretionaryData st) = 0
                    then at2 buff i 0x9F 0x1F else Inr False) (\<lambda>isTrack1.
               if isTrack1 then extractBaseRecords_track1 buff i st
               else Inr (i, st))))"

lemma extractBaseRecords_tag_index:
  "extractBaseRecords_tag buff sz i st = Inr (i', st') \<Longrightarrow> i \<le> i'"
  unfolding extractBaseRecords_tag_def extractBaseRecords_track2_def
    extractBaseRecords_name_def extractBaseRecords_track1_def
  by (auto elim!: bindE_InrE split: if_splits)

text \<open>The scan of one response: \<open>for (size_t i = 0; i < size; ++i)\<close>.\<close>

function extractBaseRecords_scan :: "byte_t list \<Rightarrow> nat \<Rightarrow> nat \<Rightarrow> CCInfo \<Rightarrow> error + CCInfo" where
  "extractBaseRecords_scan buff sz i st =
     (if i < sz then
        (case extractBaseRecords_tag buff sz i st of
           Inl e \<Rightarrow> Inl e
         | Inr (i', st') \<Rightarrow> extractBaseRecords_scan buff sz (i' + 1) st')
      else Inr st)"
  by pat_completeness auto
termination
  by (relation "measure (\<lambda>(buff, sz, i, st). sz - i)")
     (auto dest: extractBaseRecords_tag_index)

text \<open>
  The two loops over the files and the records, as one loop over the pairs
  \<open>(sfi, record)\<close> in the order of the program. \<open>rrec\<close> stands for
  \<open>Command::READ_RECORD\<close>; the two parameter bytes are stored as \<open>byte_t\<close>. The
  command is built in the array of an \<open>APDU\<close> and its length is that of \<open>rrec\<close>:
  a parameter byte written past that length is not sent, and the list update leaves the
  list unchanged there.
\<close>

fun extractBaseRecords_loop ::
  "'d transceive \<Rightarrow> byte_t list \<Rightarrow> (nat \<times> nat) list \<Rightarrow> 'd \<Rightarrow> rx \<Rightarrow> CCInfo
     \<Rightarrow> error + (CCInfo \<times> 'd \<times> rx)" where
  "extractBaseRecords_loop tr rrec [] dev r st = Inr (st, dev, r)"
| "extractBaseRecords_loop tr rrec ((sfi, record) # rest) dev r st =
     (case executeCommand tr dev
             (rrec[5 := of_nat (push_bit 3 sfi OR push_bit 2 1), 4 := of_nat record]) of
        (dev', r', res) \<Rightarrow>
          if apdu_size res = 0 then extractBaseRecords_loop tr rrec rest dev' r' st
          else bindE (extractBaseRecords_scan (apdu_data res) (apdu_size res) 0 st) (\<lambda>st'.
                 extractBaseRecords_loop tr rrec rest dev' r' st'))"

text \<open>
  \<open>CCInfo::extractBaseRecords\<close>; the four bounds \<open>_FROM_SFI\<close>, \<open>_TO_SFI\<close>,
  \<open>_FROM_RECORD\<close> and \<open>_TO_RECORD\<close> of the class declaration are parameters.
\<close>

definition extractBaseRecords ::
  "'d transceive \<Rightarrow> 'd \<Rightarrow> rx \<Rightarrow> byte_t list \<Rightarrow> nat \<Rightarrow> nat \<Rightarrow> nat \<Rightarrow> nat \<Rightarrow> CCInfo
     \<Rightarrow> error + (int \<times> CCInfo \<times> 'd \<times> rx)" where
  "extractBaseRecords tr dev r rrec from_sfi to_sfi from_record to_record st =
     bindE (extractBaseRecords_loop tr rrec
              (concat (map (\<lambda>sfi. map (\<lambda>record. (sfi, record)) [from_record..<to_record + 1])
                        [from_sfi..<to_sfi + 1]))
              dev r st) (\<lambda>(st', dev', r'). Inr (0, st', dev', r'))"

section \<open>Application discovery\<close>

text \<open>
  The body of the inner loop of \<open>ApplicationHelper::getAll\<close> at index \<open>i\<close>: the three
  tests on the identifier, the priority and the label, in this order, with \<open>++i\<close>
  between the second and the third. It reads \<open>abtRx\<close> wherever the index has come to,
  also past \<open>szRx\<close>.
\<close>

definition getAll_aid :: "byte_t list \<Rightarrow> nat \<Rightarrow> Application \<Rightarrow> error + (nat \<times> Application)" where
  "getAll_aid buf i app =
     bindE (rd buf i) (\<lambda>b.
       if b = 0x4F then
         bindE (rd buf (i + 1)) (\<lambda>len.
           bindE (memcpy (aid app) 0 buf (i + 2) (unat len)) (\<lambda>d.
             Inr (i + 2 + unat len - 1, app\<lparr>aid := d\<rparr>)))
       else Inr (i, app))"

definition getAll_priority :: "byte_t list \<Rightarrow> nat \<Rightarrow> Application \<Rightarrow> error + (nat \<times> Application)" where
  "getAll_priority buf i app =
     bindE (rd buf i) (\<lambda>b.
       if b = 0x87 then
         bindE (rd buf (i + 2)) (\<lambda>p. Inr (i + 2, app\<lparr>priority := p\<rparr>))
       else Inr (i, app))"

definition getAll_name :: "byte_t list \<Rightarrow> nat \<Rightarrow> Application \<Rightarrow> error + (nat \<times> Application)" where
  "getAll_name buf i app =
     bindE (rd buf i) (\<lambda>b.
       if b = 0x50 then
         bindE (rd buf (i + 1)) (\<lambda>len.
           bindE (memcpy (name app) 0 buf (i + 2) (unat len)) (\<lambda>d.
             bindE (wr d (unat len) 0) (\<lambda>d'.
               Inr (i + 2 + unat len - 1, app\<lparr>name := d'\<rparr>))))
       else Inr (i, app))"

definition getAll_fields :: "byte_t list \<Rightarrow> nat \<Rightarrow> Application \<Rightarrow> error + (nat \<times> Application)" where
  "getAll_fields buf i app =
     bindE (getAll_aid buf i app) (\<lambda>(i1, app1).
       bindE (getAll_priority buf i1 app1) (\<lambda>(i2, app2).
         getAll_name buf (i2 + 1) app2))"

lemma getAll_fields_index:
  "getAll_fields buf i app = Inr (i', app') \<Longrightarrow> i < i'"
  unfolding getAll_fields_def getAll_aid_def getAll_priority_def getAll_name_def
  by (auto elim!: bindE_InrE split: if_splits)

text \<open>
  The inner loop: \<open>while (i < szRx && abtRx[i] != 0x61)\<close>; the result is the index where
  it stops and the application.
\<close>

function getAll_template ::
  "byte_t list \<Rightarrow> nat \<Rightarrow> nat \<Rightarrow> Application \<Rightarrow> error + (nat \<times> Application)" where
  "getAll_template buf sz i app =
     (if i < sz then
        (case rd buf i of
           Inl e \<Rightarrow> Inl e
         | Inr b \<Rightarrow>
             if b \<noteq> 0x61 then
               (case getAll_fields buf i app of
                  Inl e \<Rightarrow> Inl e
                | Inr (i', app') \<Rightarrow> getAll_template buf sz i' app')
             else Inr (i, app))
      else Inr (i, app))"
  by pat_completeness auto
termination
  by (relation "measure (\<lambda>(buf, sz, i, app). sz - i)")
     (auto dest: getAll_fields_index)

declare getAll_template.simps [simp del]

lemma getAll_template_index:
  "getAll_template buf sz i app = Inr (i', app') \<Longrightarrow> i \<le> i'"
proof (induction buf sz i app rule: getAll_template.induct)
  case (1 buf sz i app)
  show ?case
  proof (cases "i < sz")
    case False
    with "1.prems" show ?thesis by (simp add: getAll_template.simps [of buf sz i])
  next
    case True
    show ?thesis
    proof (cases "rd buf i")
      case (Inl e)
      with True "1.prems" show ?thesis by (simp add: getAll_template.simps [of buf sz i])
    next
      case (Inr b)
      show ?thesis
      proof (cases "b = 0x61")
        case True
        with \<open>i < sz\<close> Inr "1.prems" show ?thesis
          by (simp add: getAll_template.simps [of buf sz i])
      next
        case False
        from "1.prems" \<open>i < sz\<close> Inr False obtain j app1 where
          f: "getAll_fields buf i app = Inr (j, app1)"
          and t: "getAll_template buf sz j app1 = Inr (i', app')"
          by (auto simp: getAll_template.simps [of buf sz i] split: sum.splits)
        from "1.IH" [OF \<open>i < sz\<close> Inr False f refl] t have "j \<le> i'" by simp
        with getAll_fields_index [OF f] show ?thesis by simp
      qed
    qed
  qed
qed

text \<open>
  The outer loop: \<open>for (size_t i = 0; i < szRx; ++i)\<close>. After a template the index is
  set back by one and then incremented, so the scan goes on where the inner loop stopped.
  \<open>app0\<close> is the local variable \<open>app\<close> as declared.
\<close>

function getAll_scan ::
  "Application \<Rightarrow> byte_t list \<Rightarrow> nat \<Rightarrow> nat \<Rightarrow> Application list \<Rightarrow> error + Application list" where
  "getAll_scan app0 buf sz i list =
     (if i < sz then
        (case rd buf i of
           Inl e \<Rightarrow> Inl e
         | Inr b \<Rightarrow>
             if b = 0x61 then
               (case getAll_template buf sz (i + 1) app0 of
                  Inl e \<Rightarrow> Inl e
                | Inr (i', app) \<Rightarrow> getAll_scan app0 buf sz (i' - 1 + 1) (list @ [app]))
             else getAll_scan app0 buf sz (i + 1) list)
      else Inr list)"
  by pat_completeness auto
termination
  by (relation "measure (\<lambda>(app0, buf, sz, i, list). sz - i)")
     (auto dest: getAll_template_index)

text \<open>
  \<open>ApplicationHelper::getAll\<close>; \<open>select_ppse\<close> stands for \<open>Command::SELECT_PPSE\<close>.
\<close>

definition getAll ::
  "'d transceive \<Rightarrow> 'd \<Rightarrow> byte_t list \<Rightarrow> Application
     \<Rightarrow> error + (Application list \<times> 'd \<times> rx)" where
  "getAll tr dev select_ppse app0 =
     (case executeCommand tr dev select_ppse of
        (dev', r, res) \<Rightarrow>
          if apdu_size res = 0 then Inr ([], dev', r)
          else bindE (getAll_scan app0 (abtRx r) (nat (szRx r)) 0 []) (\<lambda>list.
                 Inr (list, dev', r)))"

section \<open>Processing options\<close>

text \<open>\<open>CCInfo::PDOLValues\<close>: the terminal values sent for the tags of a PDOL.\<close>

definition PDOLValues :: "(16 word \<times> byte_t list) list" where
  "PDOLValues =
     [(0x9F59, [0xC8, 0x80, 0x00]),
      (0x9F5A, [0x00]),
      (0x9F58, [0x01]),
      (0x9F66, [0xB6, 0x20, 0xC0, 0x00]),
      (0x9F02, [0x00, 0x00, 0x10, 0x00, 0x00, 0x00]),
      (0x9F03, [0x00, 0x00, 0x00, 0x00, 0x00, 0x00]),
      (0x9F1A, [0x01, 0x24]),
      (0x5F2A, [0x01, 0x24]),
      (0x95, [0x00, 0x00, 0x00, 0x00, 0x00]),
      (0x9A, [0x15, 0x01, 0x01]),
      (0x9C, [0x00]),
      (0x9F37, [0x82, 0x3D, 0xDE, 0x7A])]"

text \<open>\<open>PDOLValues.at(tag)\<close> throws when the tag is not in the table.\<close>

definition PDOLValues_at :: "16 word \<Rightarrow> error + byte_t list" where
  "PDOLValues_at tag = (case map_of PDOLValues tag of None \<Rightarrow> Inl OutOfRange | Some v \<Rightarrow> Inr v)"

text \<open>\<open>buff[i] << 8 | buff[i + 1]\<close>, stored in an \<open>unsigned short\<close>.\<close>

definition tag16 :: "byte_t \<Rightarrow> byte_t \<Rightarrow> 16 word" where
  "tag16 hi lo = push_bit 8 (ucast hi) OR ucast lo"

text \<open>
  The body of the first loop of \<open>CCInfo::getProcessingOptions\<close> at index \<open>i\<close>: the pair
  \<open>p\<close> of the tag and its length, and the index of the length byte.
\<close>

definition getProcessingOptions_tag :: "byte_t list \<Rightarrow> nat \<Rightarrow> error + ((16 word \<times> byte_t) \<times> nat)" where
  "getProcessingOptions_tag buff i =
     bindE (rd buff i) (\<lambda>b.
       bindE (if b = 0x5F \<or> b = 0x9F \<or> b = 0xBF
              then bindE (rd buff (i + 1)) (\<lambda>b2. Inr (tag16 b b2, i + 1))
              else Inr (ucast b, i)) (\<lambda>(first, i1).
         let i2 = i1 + 1 in
         bindE (rd buff i2) (\<lambda>l. Inr ((first, l), i2))))"

lemma getProcessingOptions_tag_index:
  "getProcessingOptions_tag buff i = Inr (p, i') \<Longrightarrow> i < i'"
  by (auto simp: getProcessingOptions_tag_def bindE_def split: sum.splits if_splits)

text \<open>
  The first loop of \<open>getProcessingOptions\<close>: \<open>len\<close> is \<open>pdol_response_len\<close> and
  \<open>tags\<close> is \<open>tagList\<close>.
\<close>

function getProcessingOptions_parse ::
  "byte_t list \<Rightarrow> nat \<Rightarrow> nat \<Rightarrow> nat \<Rightarrow> (16 word \<times> byte_t) list
     \<Rightarrow> error + (nat \<times> (16 word \<times> byte_t) list)" where
  "getProcessingOptions_parse buff sz i len tags =
     (if i < sz then
        (case getProcessingOptions_tag buff i of
           Inl e \<Rightarrow> Inl e
         | Inr (p, i') \<Rightarrow>
             getProcessingOptions_parse buff sz (i' + 1) (len + unat (snd p)) (tags @ [p]))
      else Inr (len, tags))"
  by pat_completeness auto
termination
  by (relation "measure (\<lambda>(buff, sz, i, len, tags). sz - i)")
     (auto dest: getProcessingOptions_tag_index)

text \<open>
  Writing \<open>bs\<close> at \<open>gpo.data[gpo.size]\<close> and advancing \<open>gpo.size\<close>: the list holds the
  \<open>gpo.size\<close> bytes written so far, \<open>cap\<close> is the size of the array of an \<open>APDU\<close>.
\<close>

definition gpo_put :: "nat \<Rightarrow> byte_t list \<Rightarrow> byte_t list \<Rightarrow> error + byte_t list" where
  "gpo_put cap gpo bs = (if length gpo + length bs \<le> cap then Inr (gpo @ bs) else Inl OutOfBounds)"

text \<open>The second loop: the value of each tag, cut to the length the PDOL declares.\<close>

fun getProcessingOptions_values ::
  "nat \<Rightarrow> byte_t list \<Rightarrow> (16 word \<times> byte_t) list \<Rightarrow> error + byte_t list" where
  "getProcessingOptions_values cap gpo [] = Inr gpo"
| "getProcessingOptions_values cap gpo ((first, second) # tags) =
     bindE (PDOLValues_at first) (\<lambda>v.
       if unat second \<le> length v
       then bindE (gpo_put cap gpo (take (unat second) v)) (\<lambda>gpo'.
              getProcessingOptions_values cap gpo' tags)
       else Inl OutOfBounds)"

text \<open>
  The command that \<open>getProcessingOptions\<close> builds, with \<open>pdol_response_len\<close>;
  \<open>header\<close> stands for \<open>Command::GPO_HEADER\<close>.
\<close>

definition getProcessingOptions_command ::
  "byte_t list \<Rightarrow> nat \<Rightarrow> APDU \<Rightarrow> error + (nat \<times> byte_t list)" where
  "getProcessingOptions_command header cap p =
     bindE (getProcessingOptions_parse (apdu_data p) (apdu_size p) 0 0 []) (\<lambda>(len, tags).
       bindE (gpo_put cap [] header) (\<lambda>g0.
         bindE (gpo_put cap g0 [of_nat (len + 2)]) (\<lambda>g1.
           bindE (gpo_put cap g1 [0x83]) (\<lambda>g2.
             bindE (gpo_put cap g2 [of_nat len]) (\<lambda>g3.
               bindE (getProcessingOptions_values cap g3 tags) (\<lambda>g4.
                 bindE (gpo_put cap g4 [0]) (\<lambda>g5. Inr (len, g5))))))))"

text \<open>\<open>CCInfo::getProcessingOptions\<close>: 1 when the card refuses the command, else 0.\<close>

definition getProcessingOptions ::
  "'d transceive \<Rightarrow> 'd \<Rightarrow> byte_t list \<Rightarrow> nat \<Rightarrow> CCInfo \<Rightarrow> error + (int \<times> 'd \<times> rx)" where
  "getProcessingOptions tr dev header cap st =
     bindE (getProcessingOptions_command header cap (pdol st)) (\<lambda>(len, gpo).
       case executeCommand tr dev gpo of
         (dev', r, res) \<Rightarrow> Inr (if apdu_size res = 0 then 1 else 0, dev', r))"

text \<open>
  What the specification says of a PDOL: a sequence of pairs of a tag and a length, where
  a first byte \<open>0x5F\<close>, \<open>0x9F\<close> or \<open>0xBF\<close> starts a tag of two bytes, read big-endian,
  and any other byte is a tag of one byte. \<open>None\<close> when the bytes end inside a pair.
\<close>

fun spec_pdol_pairs :: "byte_t list \<Rightarrow> (16 word \<times> byte_t) list option" where
  "spec_pdol_pairs [] = Some []"
| "spec_pdol_pairs [t] = None"
| "spec_pdol_pairs (t # x # rest) =
     (if t = 0x5F \<or> t = 0x9F \<or> t = 0xBF then
        (case rest of
           [] \<Rightarrow> None
         | l # rest' \<Rightarrow> map_option ((#) (tag16 t x, l)) (spec_pdol_pairs rest'))
      else map_option ((#) (ucast t, x)) (spec_pdol_pairs rest))"

text \<open>
  The value the specification sends for a pair: the table entry of the tag, of the
  declared length; a pair is known when the table has an entry of at least that length.
\<close>

definition pdol_value :: "16 word \<times> byte_t \<Rightarrow> byte_t list" where
  "pdol_value q = (case map_of PDOLValues (fst q) of None \<Rightarrow> [] | Some v \<Rightarrow> take (unat (snd q)) v)"

definition pdol_known :: "16 word \<times> byte_t \<Rightarrow> bool" where
  "pdol_known q = (case map_of PDOLValues (fst q) of None \<Rightarrow> False | Some v \<Rightarrow> unat (snd q) \<le> length v)"

definition pdol_total :: "(16 word \<times> byte_t) list \<Rightarrow> nat" where
  "pdol_total pairs = sum_list (map (\<lambda>q. unat (snd q)) pairs)"

section \<open>Presentation\<close>

text \<open>
  What is written to \<open>std::cout\<close> is a string. The macro \<open>HEX\<close> comes from
  \<open>tools.hh\<close>; the printing functions take the rendering of a byte as the parameter
  \<open>hex\<close>, and the rendering of the entry counter as the parameter \<open>shown\<close>.
\<close>

definition endl :: string where
  "endl = [CHR 0x0A]"

text \<open>The hexadecimal digit of the low nibble of a byte.\<close>

definition hex_digit :: "byte_t \<Rightarrow> char" where
  "hex_digit d = (''0123456789abcdef'') ! unat (d AND 0x0F)"

text \<open>
  Modelled from the spec: the macro \<open>HEX\<close> of \<open>tools.hh\<close> is missing; the
  specification renders a byte as a pair of hexadecimal digits (\<open>06\<close>, \<open>15\<close>).
\<close>

definition HEX :: "byte_t \<Rightarrow> string" where
  "HEX b = [hex_digit (drop_bit 4 b), hex_digit b]"

subsection \<open>Track 2\<close>

text \<open>The loop of \<open>CCInfo::printTracksInfo\<close> over the first 8 bytes.\<close>

function printTracksInfo_pan :: "(byte_t \<Rightarrow> string) \<Rightarrow> byte_t list \<Rightarrow> nat \<Rightarrow> error + string" where
  "printTracksInfo_pan hex buff i =
     (if i < 8 then
        bindE (rd buff i) (\<lambda>b.
          bindE (printTracksInfo_pan hex buff (i + 1)) (\<lambda>s.
            Inr (hex b @ (if i AND 1 \<noteq> 0 then '' '' else '''') @ s)))
      else Inr '''')"
  by pat_completeness auto
termination
  by (relation "measure (\<lambda>(hex, buff, i). 8 - i)") auto

text \<open>
  The expiry date of \<open>printTracksInfo\<close>: \<open>year\<close> and \<open>month\<close> are of type
  \<open>byte_t\<close>, so the left shifts lose the high nibble.
\<close>

definition printTracksInfo_expiry :: "(byte_t \<Rightarrow> string) \<Rightarrow> byte_t list \<Rightarrow> error + string" where
  "printTracksInfo_expiry hex buff =
     bindE (rd buff 8) (\<lambda>b8.
       bindE (rd buff 9) (\<lambda>b9.
         let year = push_bit 4 b8 OR drop_bit 4 b9 in
         bindE (rd buff 10) (\<lambda>b10.
           let month = push_bit 4 b9 OR drop_bit 4 b10 in
           Inr (''Expiry date: '' @ hex month @ ''/20'' @ hex year @ endl))))"

text \<open>\<open>CCInfo::printTracksInfo\<close>.\<close>

definition printTracksInfo :: "(byte_t \<Rightarrow> string) \<Rightarrow> CCInfo \<Rightarrow> error + string" where
  "printTracksInfo hex st =
     (let buff = apdu_data (track2EquivalentData st) in
      bindE (printTracksInfo_pan hex buff 0) (\<lambda>pan.
        bindE (printTracksInfo_expiry hex buff) (\<lambda>expiry.
          Inr (''PAN: '' @ pan @ endl @ expiry))))"

subsection \<open>The log\<close>

definition logFormatTags :: "(16 word \<times> string) list" where
  "logFormatTags =
     [(0x9A, ''Date''), (0x9C, ''Type''), (0x9F21, ''Time''), (0x9F1A, ''Country''),
      (0x9F27, ''Crypto info''), (0x5F2A, ''Currency''), (0x9F02, ''Amount''),
      (0x9F4E, ''Merchant''), (0x9F36, ''Counter'')]"

definition countryCodes :: "(16 word \<times> string) list" where
  "countryCodes =
     [(0x756, ''CHE''), (0x250, ''FRA''), (0x826, ''GBR''), (0x124, ''CAN''), (0x840, ''USA'')]"

definition currencyCodes :: "(16 word \<times> string) list" where
  "currencyCodes =
     [(0x756, ''CHF''), (0x978, ''EUR''), (0x826, ''GBP''), (0x124, ''CAD''), (0x840, ''USD'')]"

definition table_at :: "(16 word \<times> string) list \<Rightarrow> 16 word \<Rightarrow> error + string" where
  "table_at table tag = (case map_of table tag of None \<Rightarrow> Inl OutOfRange | Some v \<Rightarrow> Inr v)"

text \<open>
  The loops of \<open>CCInfo::printPaylog\<close> of the form
  \<open>for (j = 0; j < len; ++j) std::cout << prefix(j) << render(entry.data[e++])\<close>: the
  result is the text and the new value of \<open>e\<close>.
\<close>

function printPaylog_run ::
  "(byte_t \<Rightarrow> string) \<Rightarrow> (nat \<Rightarrow> string) \<Rightarrow> byte_t list \<Rightarrow> nat \<Rightarrow> nat \<Rightarrow> nat
     \<Rightarrow> error + (string \<times> nat)" where
  "printPaylog_run render prefix entry e j len =
     (if j < len then
        bindE (rd entry e) (\<lambda>b.
          bindE (printPaylog_run render prefix entry (e + 1) (j + 1) len) (\<lambda>(s, e').
            Inr (prefix j @ render b @ s, e')))
      else Inr ('''', e))"
  by pat_completeness auto
termination
  by (relation "measure (\<lambda>(render, prefix, entry, e, j, len). len - j)") auto

text \<open>The loop of the amount (tag \<open>0x9F02\<close>), with its flag \<open>flagZero\<close>.\<close>

function printPaylog_amount ::
  "(byte_t \<Rightarrow> string) \<Rightarrow> byte_t list \<Rightarrow> nat \<Rightarrow> nat \<Rightarrow> nat \<Rightarrow> bool \<Rightarrow> error + (string \<times> nat)" where
  "printPaylog_amount hex entry e j len flagZero =
     (if j < len then
        bindE (rd entry e) (\<lambda>b.
          if j < 4 \<and> flagZero \<and> b = 0
          then printPaylog_amount hex entry (e + 1) (j + 1) len flagZero
          else bindE (printPaylog_amount hex entry (e + 1) (j + 1) len False) (\<lambda>(s, e').
                 Inr (hex b @ (if j = 4 then ''.'' else '''') @ s, e')))
      else Inr ('''', e))"
  by pat_completeness auto
termination
  by (relation "measure (\<lambda>(hex, entry, e, j, len, flagZero). len - j)") auto

text \<open>
  The fields whose value is a code of two bytes looked up in a table (currency,
  terminal country): the name of the code, or the bytes when the code is not in the table.
\<close>

definition printPaylog_code ::
  "(byte_t \<Rightarrow> string) \<Rightarrow> (16 word \<times> string) list \<Rightarrow> byte_t list \<Rightarrow> nat \<Rightarrow> nat
     \<Rightarrow> error + (string \<times> nat)" where
  "printPaylog_code hex table entry e len =
     bindE (rd entry e) (\<lambda>hi.
       bindE (rd entry (e + 1)) (\<lambda>lo.
         case map_of table (push_bit 8 (ucast hi) OR ucast lo) of
           None \<Rightarrow> printPaylog_run hex (\<lambda>j. '''') entry e 0 len
         | Some code \<Rightarrow> Inr (code, e + 2)))"

text \<open>
  A field of the log as \<open>printPaylog\<close> writes it: the name of the tag from
  \<open>_logFormatTags\<close>, a colon, the value, a semicolon. \<open>i'\<close> is the index in the format
  and \<open>body\<close> the rendering of the value, with the new cursor into the entry.
\<close>

definition printPaylog_labelled ::
  "16 word \<Rightarrow> nat \<Rightarrow> error + (string \<times> nat) \<Rightarrow> error + (string \<times> nat \<times> nat)" where
  "printPaylog_labelled key i' body =
     bindE (table_at logFormatTags key) (\<lambda>tag.
       bindE body (\<lambda>(s, e'). Inr (tag @ '': '' @ s @ ''; '', i', e')))"

text \<open>
  The chain of tests on two bytes of the format (\<open>f0\<close> at \<open>i\<close>, \<open>f1\<close> at \<open>i + 1\<close>) in
  the body of the loop, entered when \<open>i + 1 < size\<close>. The model reads \<open>f1\<close> once
  before the tests; the program reads it inside them.
\<close>

definition printPaylog_field2 ::
  "(byte_t \<Rightarrow> string) \<Rightarrow> byte_t list \<Rightarrow> byte_t list \<Rightarrow> nat \<Rightarrow> nat \<Rightarrow> byte_t \<Rightarrow> byte_t
     \<Rightarrow> error + (string \<times> nat \<times> nat)" where
  "printPaylog_field2 hex format entry i e f0 f1 =
     (if f0 = 0x9F \<and> f1 = 0x21 then
        bindE (rd format (i + 2)) (\<lambda>len.
          printPaylog_labelled 0x9F21 (i + 2)
            (printPaylog_run hex (\<lambda>j. if j = 0 then '''' else '':'') entry e 0 (unat len)))
      else if f0 = 0x5F \<and> f1 = 0x2A then
        bindE (rd format (i + 2)) (\<lambda>len.
          printPaylog_labelled 0x5F2A (i + 2)
            (printPaylog_code hex currencyCodes entry e (unat len)))
      else if f0 = 0x9F \<and> f1 = 0x02 then
        bindE (rd format (i + 2)) (\<lambda>len.
          printPaylog_labelled 0x9F02 (i + 2)
            (printPaylog_amount hex entry e 0 (unat len) True))
      else if f0 = 0x9F \<and> f1 = 0x4E then
        bindE (rd format (i + 2)) (\<lambda>len.
          printPaylog_labelled 0x9F4E (i + 2)
            (printPaylog_run (\<lambda>b. [char_of (unat b)]) (\<lambda>j. '''') entry e 0 (unat len)))
      else if f0 = 0x9F \<and> f1 = 0x36 then
        bindE (rd format (i + 2)) (\<lambda>len.
          printPaylog_labelled 0x9F36 (i + 2)
            (printPaylog_run hex (\<lambda>j. '''') entry e 0 (unat len)))
      else if f0 = 0x9F \<and> f1 = 0x1A then
        bindE (rd format (i + 2)) (\<lambda>len.
          printPaylog_labelled 0x9F1A (i + 2)
            (printPaylog_code hex countryCodes entry e (unat len)))
      else if f0 = 0x9F \<and> f1 = 0x27 then
        bindE (rd format (i + 2)) (\<lambda>len.
          printPaylog_labelled 0x9F27 (i + 2)
            (printPaylog_run hex (\<lambda>j. '''') entry e 0 (unat len)))
      else Inr ('''', i, e))"

text \<open>
  The body of the loop over the format at index \<open>i\<close>, with the cursor \<open>e\<close> into the
  entry: the text, the index at the end of the body and the new cursor.
\<close>

definition printPaylog_field ::
  "(byte_t \<Rightarrow> string) \<Rightarrow> byte_t list \<Rightarrow> nat \<Rightarrow> byte_t list \<Rightarrow> nat \<Rightarrow> nat
     \<Rightarrow> error + (string \<times> nat \<times> nat)" where
  "printPaylog_field hex format sz entry i e =
     bindE (rd format i) (\<lambda>f0.
       if f0 = 0x9A then
         bindE (rd format (i + 1)) (\<lambda>len.
           printPaylog_labelled 0x9A (i + 1)
             (printPaylog_run hex
                (\<lambda>j. (if j = 0 then '''' else ''/'') @ (if j = 0 then ''20'' else ''''))
                entry e 0 (unat len)))
       else if f0 = 0x9C then
         bindE (rd format (i + 1)) (\<lambda>len.
           printPaylog_labelled 0x9C (i + 1)
             (bindE (rd entry e) (\<lambda>b.
                Inr (if b \<noteq> 0 then ''Withdrawal'' else ''Payment'', e + 1))))
       else if i + 1 < sz then
         bindE (rd format (i + 1)) (\<lambda>f1. printPaylog_field2 hex format entry i e f0 f1)
       else Inr ('''', i, e))"

lemma printPaylog_labelled_index:
  "printPaylog_labelled key j body = Inr (s, i', e') \<Longrightarrow> i' = j"
  by (auto simp: printPaylog_labelled_def elim!: bindE_InrE)

lemma printPaylog_field2_index:
  "printPaylog_field2 hex format entry i e f0 f1 = Inr (s, i', e') \<Longrightarrow> i \<le> i'"
  unfolding printPaylog_field2_def
  by (auto elim!: bindE_InrE dest!: printPaylog_labelled_index split: if_splits)

lemma printPaylog_field_index:
  "printPaylog_field hex format sz entry i e = Inr (s, i', e') \<Longrightarrow> i \<le> i'"
  unfolding printPaylog_field_def
  by (auto elim!: bindE_InrE dest!: printPaylog_labelled_index printPaylog_field2_index
      split: if_splits)

text \<open>The loop over the format for one entry.\<close>

function printPaylog_format ::
  "(byte_t \<Rightarrow> string) \<Rightarrow> byte_t list \<Rightarrow> nat \<Rightarrow> byte_t list \<Rightarrow> nat \<Rightarrow> nat \<Rightarrow> error + string" where
  "printPaylog_format hex format sz entry i e =
     (if i < sz then
        (case printPaylog_field hex format sz entry i e of
           Inl err \<Rightarrow> Inl err
         | Inr (s, i', e') \<Rightarrow>
             bindE (printPaylog_format hex format sz entry (i' + 1) e') (\<lambda>s'. Inr (s @ s')))
      else Inr '''')"
  by pat_completeness auto
termination
  by (relation "measure (\<lambda>(hex, format, sz, entry, i, e). sz - i)")
     (auto dest: printPaylog_field_index)

text \<open>The loop over the entries: it stops at the first entry of length 0.\<close>

fun printPaylog_entries ::
  "(byte_t \<Rightarrow> string) \<Rightarrow> (nat \<Rightarrow> string) \<Rightarrow> APDU \<Rightarrow> nat \<Rightarrow> APDU list \<Rightarrow> error + string" where
  "printPaylog_entries hex shown fmt index [] = Inr ''''"
| "printPaylog_entries hex shown fmt index (entry # rest) =
     (if apdu_size entry = 0 then Inr ''''
      else bindE (printPaylog_format hex (apdu_data fmt) (apdu_size fmt) (apdu_data entry) 0 0)
             (\<lambda>s. bindE (printPaylog_entries hex shown fmt (index + 1) rest) (\<lambda>s'.
                Inr (shown index @ '': '' @ s @ endl @ s'))))"

text \<open>\<open>CCInfo::printPaylog\<close>.\<close>

definition printPaylog :: "(byte_t \<Rightarrow> string) \<Rightarrow> (nat \<Rightarrow> string) \<Rightarrow> CCInfo \<Rightarrow> error + string" where
  "printPaylog hex shown st =
     bindE (printPaylog_entries hex shown (logFormat st) 0 (logEntries st)) (\<lambda>s.
       Inr (''-----------------'' @ endl @ ''-- Paylog --'' @ endl @ ''-----------------'' @ endl @ s))"

section \<open>Example data\<close>

text \<open>
  Three applications, two of them with priority 1, and a card record whose log is in
  file 11 with 3 records.
\<close>

definition example_apps :: "Application list" where
  "example_apps =
     [\<lparr>aid = [0xA0, 0x00, 0x00, 0x00, 0x03, 0x10, 0x10], name = [], priority = 2\<rparr>,
      \<lparr>aid = [0xA0, 0x00, 0x00, 0x00, 0x04, 0x10, 0x10], name = [], priority = 1\<rparr>,
      \<lparr>aid = [0xA0, 0x00, 0x00, 0x00, 0x42, 0x10, 0x10], name = [], priority = 1\<rparr>]"

definition example_app0 :: Application where
  "example_app0 = \<lparr>aid = [0, 0, 0, 0, 0, 0, 0], name = [0, 0, 0, 0, 0, 0, 0, 0], priority = 0\<rparr>"

definition example_card :: CCInfo where
  "example_card = (CCInfo_new example_app0 16 4 4 4)\<lparr>logSFI := 11, logCount := 3\<rparr>"

section \<open>Properties of the command executor\<close>

lemma ends_two:
  assumes "2 \<le> length xs"
  shows "xs = take (length xs - 2) xs @ [xs ! (length xs - 2), xs ! (length xs - 1)]"
proof -
  let ?k = "length xs - 2"
  have k: "?k < length xs" "Suc ?k < length xs" "Suc ?k = length xs - 1"
    "Suc (Suc ?k) = length xs"
    using assms by auto
  have "drop ?k xs = xs ! ?k # drop (Suc ?k) xs"
    using k(1) by (metis Cons_nth_drop_Suc)
  also have "drop (Suc ?k) xs = xs ! Suc ?k # drop (Suc (Suc ?k)) xs"
    using k(2) by (metis Cons_nth_drop_Suc)
  finally have "drop ?k xs = [xs ! ?k, xs ! (length xs - 1)]"
    using k(3,4) by simp
  then show ?thesis by (metis append_take_drop_id)
qed

text \<open>
  When the driver has not written past the buffer, \<open>checkTrailer\<close> refuses exactly the
  replies that do not end in \<open>0x90 0x00\<close>.
\<close>

lemma checkTrailer_iff:
  assumes "nat (szRx r) \<le> length (abtRx r)"
  shows "checkTrailer r \<longleftrightarrow> \<not> (\<exists>p. reply r = p @ [0x90, 0x00])"
proof (cases "szRx r < 2")
  case True
  then have "length (reply r) < 2" by (simp add: reply_def)
  then have "\<not> (\<exists>p. reply r = p @ [0x90, 0x00])" by auto
  with True show ?thesis by (simp add: checkTrailer_def)
next
  case False
  let ?n = "nat (szRx r)"
  have len: "length (reply r) = ?n" using assms by (simp add: reply_def)
  have n2: "2 \<le> ?n" using False by simp
  have a: "reply r ! (?n - 2) = abtRx r ! nat (szRx r - 2)"
    using False by (simp add: reply_def nat_diff_distrib)
  have b: "reply r ! (?n - 1) = abtRx r ! nat (szRx r - 1)"
    using False by (simp add: reply_def nat_diff_distrib)
  have dec: "reply r = take (?n - 2) (reply r) @ [reply r ! (?n - 2), reply r ! (?n - 1)]"
    using ends_two [of "reply r"] len n2 by simp
  show ?thesis
  proof
    assume "checkTrailer r"
    then have ne: "\<not> (abtRx r ! nat (szRx r - 2) = 0x90 \<and> abtRx r ! nat (szRx r - 1) = 0)"
      using False by (simp add: checkTrailer_def split: if_splits)
    show "\<not> (\<exists>p. reply r = p @ [0x90, 0x00])"
    proof
      assume "\<exists>p. reply r = p @ [0x90, 0x00]"
      then obtain p where p: "reply r = p @ [0x90, 0x00]" ..
      then have "length (reply r) = length p + 2" by simp
      then have "length p = ?n - 2" using len by simp
      with p have "reply r ! (?n - 2) = 0x90" "reply r ! (?n - 1) = 0"
        using n2 by (auto simp: nth_append)
      with a b ne show False by simp
    qed
  next
    assume h: "\<not> (\<exists>p. reply r = p @ [0x90, 0x00])"
    have "\<not> (abtRx r ! nat (szRx r - 2) = 0x90 \<and> abtRx r ! nat (szRx r - 1) = 0)"
    proof
      assume "abtRx r ! nat (szRx r - 2) = 0x90 \<and> abtRx r ! nat (szRx r - 1) = 0"
      with a b dec have "reply r = take (?n - 2) (reply r) @ [0x90, 0x00]" by simp
      with h show False by blast
    qed
    then show "checkTrailer r" using False by (simp add: checkTrailer_def)
  qed
qed

lemma executeCommand_parts:
  "executeCommand tr dev command = (dev', r, a) \<Longrightarrow> a = executeCommand_ret r"
  by (auto simp: executeCommand_def split: prod.splits)

text \<open>
  C1, as the specification states it, fails: for the reply \<open>00 AA 90 00\<close> the exchange
  succeeds and the returned payload is \<open>AA 90 00\<close>, not the reply without its two
  trailing bytes, \<open>00 AA\<close>.
\<close>

theorem executeCommand_trailer_counterexample:
  "executeCommand scripted [(4, [0x00, 0xAA, 0x90, 0x00])] [] =
     ([], \<lparr>szRx = 4, abtRx = [0x00, 0xAA, 0x90, 0x00]\<rparr>,
      \<lparr>apdu_size = 3, apdu_data = [0xAA, 0x90, 0x00]\<rparr>) \<and>
   reply \<lparr>szRx = 4, abtRx = [0x00, 0xAA, 0x90, 0x00]\<rparr> = [0x00, 0xAA] @ [0x90, 0x00] \<and>
   spec_payload (reply \<lparr>szRx = 4, abtRx = [0x00, 0xAA, 0x90, 0x00]\<rparr>) = [0x00, 0xAA] \<and>
   apdu_data (snd (snd (executeCommand scripted [(4, [0x00, 0xAA, 0x90, 0x00])] []))) \<noteq>
     spec_payload (reply (fst (snd (executeCommand scripted [(4, [0x00, 0xAA, 0x90, 0x00])] []))))"
  by (simp add: executeCommand_def executeCommand_ret_def checkTrailer_def reply_def
      spec_payload_def)

text \<open>
  C1, amended: for every exchange that succeeds (a non-negative length and a reply that
  ends in \<open>0x90 0x00\<close>), \<open>executeCommand\<close> returns the reply with its first byte
  removed: one byte less than the reply, the two status bytes still at the end.
\<close>

theorem executeCommand_success:
  assumes "executeCommand tr dev command = (dev', r, a)"
    and "0 \<le> szRx r"
    and "nat (szRx r) \<le> length (abtRx r)"
    and "\<exists>p. reply r = p @ [0x90, 0x00]"
  shows "apdu_size a = length (reply r) - 1 \<and> apdu_data a = tl (reply r)"
proof -
  have a: "a = executeCommand_ret r" using assms(1) by (rule executeCommand_parts)
  have ok: "\<not> checkTrailer r" using checkTrailer_iff [OF assms(3)] assms(4) by simp
  have len: "length (reply r) = nat (szRx r)" using assms(3) by (simp add: reply_def)
  have n: "nat (szRx r - 1) = nat (szRx r) - 1" using assms(2) by arith
  have "take (nat (szRx r - 1)) (drop 1 (abtRx r)) = tl (reply r)"
    unfolding n by (simp add: reply_def tl_take drop_Suc)
  then show ?thesis using a ok assms(2) len n by (simp add: executeCommand_ret_def)
qed

theorem executeCommand_success_witness:
  "executeCommand scripted [(4, [0x00, 0xAA, 0x90, 0x00])] [] =
     ([], \<lparr>szRx = 4, abtRx = [0x00, 0xAA, 0x90, 0x00]\<rparr>,
      \<lparr>apdu_size = 3, apdu_data = [0xAA, 0x90, 0x00]\<rparr>) \<and>
   apdu_size \<lparr>apdu_size = 3, apdu_data = [0xAA, 0x90, 0x00 :: byte_t]\<rparr> =
     length (reply \<lparr>szRx = 4, abtRx = [0x00, 0xAA, 0x90, 0x00]\<rparr>) - 1 \<and>
   apdu_data \<lparr>apdu_size = 3, apdu_data = [0xAA, 0x90, 0x00 :: byte_t]\<rparr> =
     tl (reply \<lparr>szRx = 4, abtRx = [0x00, 0xAA, 0x90, 0x00]\<rparr>)"
proof -
  have e: "executeCommand scripted [(4, [0x00, 0xAA, 0x90, 0x00])] [] =
     ([], \<lparr>szRx = 4, abtRx = [0x00, 0xAA, 0x90, 0x00]\<rparr>,
      \<lparr>apdu_size = 3, apdu_data = [0xAA, 0x90, 0x00]\<rparr>)"
    by (simp add: executeCommand_def executeCommand_ret_def checkTrailer_def)
  have p: "\<exists>p. reply \<lparr>szRx = 4, abtRx = [0x00, 0xAA, 0x90, 0x00]\<rparr> = p @ [0x90, 0x00]"
    by (rule exI [of _ "[0x00, 0xAA]"]) (simp add: reply_def)
  show ?thesis
    using executeCommand_success [OF e _ _ p] e by simp
qed

text \<open>
  C2: if the transport reports a negative result, or the reply does not end in the two
  status bytes \<open>0x90 0x00\<close>, then \<open>executeCommand\<close> returns the empty payload,
  whatever precedes the trailer.
\<close>

theorem executeCommand_failure:
  assumes "executeCommand tr dev command = (dev', r, a)"
    and "nat (szRx r) \<le> length (abtRx r)"
    and "szRx r < 0 \<or> \<not> (\<exists>p. reply r = p @ [0x90, 0x00])"
  shows "apdu_size a = 0 \<and> apdu_data a = []"
proof -
  have a: "a = executeCommand_ret r" using assms(1) by (rule executeCommand_parts)
  have "szRx r < 0 \<or> checkTrailer r"
    using assms(3) checkTrailer_iff [OF assms(2)] by blast
  then show ?thesis using a by (auto simp: executeCommand_ret_def)
qed

theorem executeCommand_failure_witness:
  "apdu_size (snd (snd (executeCommand scripted [(- 1, [0x00, 0xAA, 0x90, 0x00])] []))) = 0 \<and>
   apdu_size (snd (snd (executeCommand scripted [(4, [0x00, 0xAA, 0x6A, 0x82])] []))) = 0"
proof -
  have e1: "executeCommand scripted [(- 1, [0x00, 0xAA, 0x90, 0x00])] [] =
      ([], \<lparr>szRx = - 1, abtRx = [0x00, 0xAA, 0x90, 0x00]\<rparr>,
       snd (snd (executeCommand scripted [(- 1, [0x00, 0xAA, 0x90, 0x00])] [])))"
    by (simp add: executeCommand_def)
  have e2: "executeCommand scripted [(4, [0x00, 0xAA, 0x6A, 0x82])] [] =
      ([], \<lparr>szRx = 4, abtRx = [0x00, 0xAA, 0x6A, 0x82]\<rparr>,
       snd (snd (executeCommand scripted [(4, [0x00, 0xAA, 0x6A, 0x82])] [])))"
    by (simp add: executeCommand_def)
  have n: "\<not> (\<exists>p. reply \<lparr>szRx = 4, abtRx = [0x00, 0xAA, 0x6A, 0x82]\<rparr> = p @ [0x90, 0x00])"
    by (simp add: reply_def)
  show ?thesis
    using executeCommand_failure [OF e1] executeCommand_failure [OF e2] n by simp
qed

text \<open>
  C10: a reply of length 0 or 1 with a non-negative transport result fails the trailer
  check, and \<open>executeCommand\<close> returns the empty payload, the value it returns for a
  wrong status trailer.
\<close>

theorem executeCommand_short_reply:
  assumes "executeCommand tr dev command = (dev', r, a)"
    and "0 \<le> szRx r"
    and "szRx r < 2"
  shows "checkTrailer r \<and> apdu_size a = 0 \<and> a = \<lparr>apdu_size = 0, apdu_data = []\<rparr>"
proof -
  have a: "a = executeCommand_ret r" using assms(1) by (rule executeCommand_parts)
  have "checkTrailer r" using assms(3) by (simp add: checkTrailer_def)
  then show ?thesis using a by (simp add: executeCommand_ret_def)
qed

theorem executeCommand_short_reply_witness:
  "checkTrailer \<lparr>szRx = 1, abtRx = [0x90, 0x00]\<rparr> \<and>
   apdu_size (snd (snd (executeCommand scripted [(1, [0x90, 0x00])] []))) = 0"
proof -
  have e: "executeCommand scripted [(1, [0x90, 0x00])] [] =
      ([], \<lparr>szRx = 1, abtRx = [0x90, 0x00]\<rparr>,
       snd (snd (executeCommand scripted [(1, [0x90, 0x00])] [])))"
    by (simp add: executeCommand_def)
  show ?thesis using executeCommand_short_reply [OF e] by simp
qed

section \<open>Properties of the selector\<close>

lemma pick_none: "\<forall>a\<in>set list. priority a \<noteq> p \<Longrightarrow> selectByPriority_pick app0 list p = app0"
  by (induction list) auto

lemma pick_first:
  "(\<forall>b\<in>set ys. priority b \<noteq> p) \<Longrightarrow> priority a = p \<Longrightarrow> selectByPriority_pick app0 (ys @ a # zs) p = a"
  by (induction ys) auto

lemma unat_of_nat_byte: "n < 256 \<Longrightarrow> unat (of_nat n :: byte_t) = n"
  by (simp add: unat_of_nat)

lemma command_layout:
  assumes "h + a + 2 \<le> N" and "length header = h" and "length ai = a"
  shows "bindE (memcpy (replicate N z) 0 header 0 h) (\<lambda>b1.
           bindE (wr b1 h v) (\<lambda>b2.
             bindE (memcpy b2 (h + 1) ai 0 a) (\<lambda>b3. Inr (take (h + a + 2) b3))))
         = Inr (header @ [v] @ ai @ [z])"
proof -
  obtain k where N: "N = h + a + 2 + k" using assms(1) by (metis le_Suc_ex)
  have "N = h + Suc (a + Suc k)" using N by simp
  then have r: "replicate N z = replicate h z @ z # replicate a z @ z # replicate k z"
    by (simp only: replicate_add replicate_Suc)
  have m1: "memcpy (replicate N z) 0 header 0 h = Inr (header @ z # replicate a z @ z # replicate k z)"
    unfolding r using assms(2) by (simp add: memcpy_def)
  have w: "wr (header @ z # replicate a z @ z # replicate k z) h v
            = Inr (header @ v # replicate a z @ z # replicate k z)"
    using assms(2) by (simp add: wr_def list_update_append)
  have m2: "memcpy (header @ v # replicate a z @ z # replicate k z) (h + 1) ai 0 a
            = Inr (header @ v # ai @ z # replicate k z)"
    using assms(2,3) by (simp add: memcpy_def)
  have t: "take (h + a + 2) (header @ v # ai @ z # replicate k z) = header @ [v] @ ai @ [z]"
    using assms(2,3) by simp
  show ?thesis by (simp only: m1 w m2 t bindE_Inr)
qed

lemma selectByPriority_command_ok:
  assumes "length header + length (aid app) + 2 < 256"
  shows "selectByPriority_command header app =
           Inr (header @ [of_nat (length (aid app))] @ aid app @ [0])"
proof -
  let ?h = "length header" and ?a = "length (aid app)"
  have s2: "(of_nat ?h + 1 :: byte_t) = of_nat (?h + 1)" by simp
  have s4: "(of_nat (?h + 1) + of_nat ?a + 1 :: byte_t) = of_nat (?h + ?a + 2)" by simp
  have u1: "unat (of_nat ?h :: byte_t) = ?h" using assms by (simp add: unat_of_nat_byte)
  have u2: "unat (of_nat (?h + 1) :: byte_t) = ?h + 1"
    using assms by (intro unat_of_nat_byte) simp
  have u4: "unat (of_nat (?h + ?a + 2) :: byte_t) = ?h + ?a + 2"
    using assms by (intro unat_of_nat_byte) simp
  have le: "?h + ?a + 2 \<le> 256" using assms by simp
  show ?thesis
    unfolding selectByPriority_command_def Let_def s2 s4 u1 u2 u4
    by (rule command_layout [OF le refl refl])
qed

text \<open>
  C8: the selector takes the first entry of the list, in list order, whose priority is
  the desired one (the local variable as declared when there is none), and sends the
  header, then a length byte equal to the size of the identifier array, then the
  identifier, then a zero byte. The command is built in an array of 256 bytes with a
  length of type \<open>byte_t\<close>, hence the bound.
\<close>

theorem selectByPriority_spec:
  assumes "length header + length (aid (selectByPriority_pick app0 list p)) + 2 < 256"
  shows "((\<forall>a\<in>set list. priority a \<noteq> p) \<longrightarrow> selectByPriority_pick app0 list p = app0) \<and>
         (\<forall>ys a zs. list = ys @ a # zs \<and> (\<forall>b\<in>set ys. priority b \<noteq> p) \<and> priority a = p
            \<longrightarrow> selectByPriority_pick app0 list p = a) \<and>
         selectByPriority tr dev header app0 list p =
           Inr (executeCommand tr dev
                  (header @ [of_nat (length (aid (selectByPriority_pick app0 list p)))] @
                   aid (selectByPriority_pick app0 list p) @ [0]))"
  using assms
  by (auto simp: pick_none pick_first selectByPriority_def selectByPriority_command_ok bindE_def)

theorem selectByPriority_spec_witness:
  "selectByPriority_pick example_app0 example_apps 1 = example_apps ! 1 \<and>
   selectByPriority scripted [] [0x00, 0xA4, 0x04, 0x00] example_app0 example_apps 1 =
     Inr (executeCommand scripted []
            [0x00, 0xA4, 0x04, 0x00, 0x07, 0xA0, 0x00, 0x00, 0x00, 0x04, 0x10, 0x10, 0x00])"
proof -
  have pick: "selectByPriority_pick example_app0 example_apps 1 = example_apps ! 1"
    by (simp add: example_apps_def)
  have h: "length [0x00, 0xA4, 0x04, 0x00 :: byte_t] +
           length (aid (selectByPriority_pick example_app0 example_apps 1)) + 2 < 256"
    unfolding pick by (simp add: example_apps_def)
  show ?thesis
    using selectByPriority_spec [OF h, of scripted "[]"] pick
    by (simp add: example_apps_def)
qed

section \<open>Properties of the log fetch\<close>

declare extractLogEntries_loop.simps [simp del]

lemma executeCommand_logging:
  "executeCommand (logging tr) (d, log) c =
     (case tr d c of (d', n, buf) \<Rightarrow>
        ((d', log @ [(c, n, buf)]), \<lparr>szRx = n, abtRx = buf\<rparr>, returned (c, n, buf)))"
  by (simp add: executeCommand_def logging_def returned_def split: prod.splits)

lemma all_less_Cons:
  "(\<forall>k<length (x # xs). P k ((x # xs) ! k)) \<longleftrightarrow> P 0 x \<and> (\<forall>k<length xs. P (Suc k) (xs ! k))"
  by (auto simp: nth_Cons split: nat.splits)

text \<open>
  A run of the loop from index \<open>i\<close>: the exchanges it adds to the record of the device
  (\<open>new\<close>), what it stores and what it returns.
\<close>

lemma extractLogEntries_loop_run:
  assumes "4 < length rr" and "n \<le> length (logEntries st)"
  shows "\<exists>rc st' d' new r'.
      extractLogEntries_loop (logging tr) rr n i (d, log) r st = Inr (rc, st', (d', log @ new), r') \<and>
      length new \<le> n - i \<and>
      (\<forall>k<length new. sent (new ! k) = rr[4 := of_nat (i + k + 1)] \<and>
                        logEntries st' ! (i + k) = returned (new ! k)) \<and>
      (\<forall>k. Suc k < length new \<longrightarrow> apdu_size (returned (new ! k)) \<noteq> 0) \<and>
      (rc = 0 \<or> rc = 1) \<and>
      (rc = 0 \<longleftrightarrow> length new = n - i \<and> (\<forall>k<length new. apdu_size (returned (new ! k)) \<noteq> 0)) \<and>
      (rc = 1 \<longrightarrow> new \<noteq> [] \<and> apdu_size (returned (last new)) = 0) \<and>
      length (logEntries st') = length (logEntries st) \<and>
      st' = st\<lparr>logEntries := logEntries st'\<rparr> \<and>
      (\<forall>j. j < i \<or> i + length new \<le> j \<longrightarrow> logEntries st' ! j = logEntries st ! j)"
  using assms
proof (induction "n - i" arbitrary: i rr d log r st)
  case 0
  then have ge: "n - i = 0" by simp
  then have "extractLogEntries_loop (logging tr) rr n i (d, log) r st = Inr (0, st, (d, log @ []), r)"
    by (simp add: extractLogEntries_loop.simps [of _ rr n i])
  with ge show ?case by (intro exI [of _ 0] exI [of _ st] exI [of _ d] exI [of _ "[]"] exI [of _ r]) simp
next
  case (Suc m)
  then have lt: "i < n" by simp
  define cmd where "cmd = rr[4 := of_nat (i + 1)]"
  have upd: "\<And>y. cmd[4 := y] = rr[4 := y]" by (simp add: cmd_def)
  have lcmd: "length cmd = length rr" by (simp add: cmd_def)
  obtain d1 n1 buf1 where tr: "tr d cmd = (d1, n1, buf1)" by (cases "tr d cmd") auto
  let ?x = "(cmd, n1, buf1)"
  let ?e = "returned ?x"
  let ?r1 = "\<lparr>szRx = n1, abtRx = buf1\<rparr>"
  let ?st1 = "st\<lparr>logEntries := (logEntries st)[i := ?e]\<rparr>"
  have ex: "executeCommand (logging tr) (d, log) cmd = ((d1, log @ [?x]), ?r1, ?e)"
    by (simp add: executeCommand_logging tr)
  have w1: "wr rr 4 (of_nat (i + 1)) = Inr cmd" using Suc.prems(1) by (simp add: wr_def cmd_def)
  have w2: "wr (logEntries st) i ?e = Inr ((logEntries st)[i := ?e])"
    using lt Suc.prems(2) by (simp add: wr_def)
  have unf: "extractLogEntries_loop (logging tr) rr n i (d, log) r st =
      (if apdu_size ?e = 0 then Inr (1, ?st1, (d1, log @ [?x]), ?r1)
       else extractLogEntries_loop (logging tr) cmd n (i + 1) (d1, log @ [?x]) ?r1 ?st1)"
    by (subst extractLogEntries_loop.simps) (simp only: lt if_True w1 bindE_Inr ex prod.case w2)
  show ?case
  proof (cases "apdu_size ?e = 0")
    case True
    have "extractLogEntries_loop (logging tr) rr n i (d, log) r st = Inr (1, ?st1, (d1, log @ [?x]), ?r1)"
      using unf True by simp
    moreover have "logEntries ?st1 ! i = ?e" using lt Suc.prems(2) by simp
    ultimately show ?thesis
      using True lt
      by (intro exI [of _ 1] exI [of _ ?st1] exI [of _ d1] exI [of _ "[?x]"] exI [of _ ?r1])
         (auto simp: sent_def cmd_def)
  next
    case False
    have m: "m = n - (i + 1)" using Suc.hyps(2) by simp
    have p1: "4 < length cmd" using Suc.prems(1) lcmd by simp
    have p2: "n \<le> length (logEntries ?st1)" using Suc.prems(2) by simp
    from Suc.hyps(1) [OF m p1 p2, of d1 "log @ [?x]" ?r1]
    obtain rc st' d' new r' where
      run: "extractLogEntries_loop (logging tr) cmd n (i + 1) (d1, log @ [?x]) ?r1 ?st1
              = Inr (rc, st', (d', (log @ [?x]) @ new), r')"
      and len: "length new \<le> n - (i + 1)"
      and each: "\<forall>k<length new. sent (new ! k) = cmd[4 := of_nat (i + 1 + k + 1)] \<and>
                        logEntries st' ! (i + 1 + k) = returned (new ! k)"
      and pre: "\<forall>k. Suc k < length new \<longrightarrow> apdu_size (returned (new ! k)) \<noteq> 0"
      and rc: "rc = 0 \<or> rc = 1"
      and rc0: "rc = 0 \<longleftrightarrow> length new = n - (i + 1) \<and> (\<forall>k<length new. apdu_size (returned (new ! k)) \<noteq> 0)"
      and rc1: "rc = 1 \<longrightarrow> new \<noteq> [] \<and> apdu_size (returned (last new)) = 0"
      and lens: "length (logEntries st') = length (logEntries ?st1)"
      and frame: "st' = ?st1\<lparr>logEntries := logEntries st'\<rparr>"
      and others: "\<forall>j. j < i + 1 \<or> i + 1 + length new \<le> j \<longrightarrow> logEntries st' ! j = logEntries ?st1 ! j"
      by blast
    let ?new = "?x # new"
    have a: "extractLogEntries_loop (logging tr) rr n i (d, log) r st = Inr (rc, st', (d', log @ ?new), r')"
      using unf False run by simp
    have b: "length ?new \<le> n - i" using len lt by simp
    have sti: "logEntries st' ! i = ?e"
      using others lt Suc.prems(2) by simp
    have c: "\<forall>k<length ?new. sent (?new ! k) = rr[4 := of_nat (i + k + 1)] \<and>
                        logEntries st' ! (i + k) = returned (?new ! k)"
    proof (intro allI impI)
      fix k assume "k < length ?new"
      then show "sent (?new ! k) = rr[4 := of_nat (i + k + 1)] \<and>
                        logEntries st' ! (i + k) = returned (?new ! k)"
      proof (cases k)
        case 0
        then show ?thesis using sti by (simp add: sent_def cmd_def)
      next
        case (Suc k')
        then have "k' < length new" using \<open>k < length ?new\<close> by simp
        with each have "sent (new ! k') = cmd[4 := of_nat (i + 1 + k' + 1)] \<and>
                        logEntries st' ! (i + 1 + k') = returned (new ! k')" by blast
        moreover have "i + 1 + k' + 1 = i + k + 1" "i + 1 + k' = i + k" using Suc by simp_all
        ultimately show ?thesis using Suc by (simp only: upd nth_Cons_Suc)
      qed
    qed
    have d: "\<forall>k. Suc k < length ?new \<longrightarrow> apdu_size (returned (?new ! k)) \<noteq> 0"
    proof (intro allI impI)
      fix k assume "Suc k < length ?new"
      then show "apdu_size (returned (?new ! k)) \<noteq> 0"
        using False pre by (cases k) auto
    qed
    have e: "rc = 0 \<longleftrightarrow> length ?new = n - i \<and> (\<forall>k<length ?new. apdu_size (returned (?new ! k)) \<noteq> 0)"
    proof -
      have "(\<forall>k<length ?new. apdu_size (returned (?new ! k)) \<noteq> 0) \<longleftrightarrow>
            (\<forall>k<length new. apdu_size (returned (new ! k)) \<noteq> 0)"
        using False all_less_Cons [of ?x new "\<lambda>k y. apdu_size (returned y) \<noteq> 0"] by simp
      moreover have "length ?new = n - i \<longleftrightarrow> length new = n - (i + 1)" using lt by auto
      ultimately show ?thesis using rc0 by simp
    qed
    have f: "rc = 1 \<longrightarrow> ?new \<noteq> [] \<and> apdu_size (returned (last ?new)) = 0"
      using rc1 by simp
    have g: "length (logEntries st') = length (logEntries st)" using lens by simp
    have h: "st' = st\<lparr>logEntries := logEntries st'\<rparr>" using frame
      by (metis (no_types, lifting) CCInfo.surjective CCInfo.update_convs(10))
    have i: "\<forall>j. j < i \<or> i + length ?new \<le> j \<longrightarrow> logEntries st' ! j = logEntries st ! j"
      using others by auto
    show ?thesis
      using a b c d rc e f g h i
      by (intro exI [of _ rc] exI [of _ st'] exI [of _ d'] exI [of _ ?new] exI [of _ r']) blast
  qed
qed

text \<open>
  C9: the log fetch first sends the get-log-format command; when its result is empty it
  returns 1 and sends nothing else. Otherwise it sends, for the record indices 1, 2, ... in
  this order, the read-record command with P1 the index and P2 \<open>(logSFI << 3) | 0b100\<close>,
  stores each payload at the place of its index, and stops with 1 at the first empty
  result; it returns 0 exactly when all \<open>logCount\<close> reads were made and none was empty.
  The exchanges are those the recording device has seen.
\<close>

theorem extractLogEntries_spec:
  assumes "6 \<le> length rrec" and "unat (logCount st) \<le> length (logEntries st)"
  shows "\<exists>rc st' dev' log r'.
     extractLogEntries (logging tr) (dev, []) getf rrec st = Inr (rc, st', (dev', log), r') \<and>
     log \<noteq> [] \<and> sent (hd log) = getf \<and> logFormat st' = returned (hd log) \<and>
     (apdu_size (returned (hd log)) = 0 \<longrightarrow> rc = 1 \<and> length log = 1) \<and>
     (apdu_size (returned (hd log)) \<noteq> 0 \<longrightarrow>
        length log - 1 \<le> unat (logCount st) \<and>
        (\<forall>k<length log - 1.
           sent (log ! (k + 1)) = rrec[5 := push_bit 3 (logSFI st) OR 4, 4 := of_nat (k + 1)] \<and>
           logEntries st' ! k = returned (log ! (k + 1))) \<and>
        (\<forall>k. k + 1 < length log - 1 \<longrightarrow> apdu_size (returned (log ! (k + 1))) \<noteq> 0) \<and>
        (rc = 0 \<longleftrightarrow> length log - 1 = unat (logCount st) \<and>
                   (\<forall>k<length log - 1. apdu_size (returned (log ! (k + 1))) \<noteq> 0)) \<and>
        (rc \<noteq> 0 \<longrightarrow> rc = 1 \<and> 1 < length log \<and> apdu_size (returned (last log)) = 0))"
proof -
  obtain d1 n1 buf1 where tr: "tr dev getf = (d1, n1, buf1)" by (cases "tr dev getf") auto
  let ?x = "(getf, n1, buf1)"
  let ?fmt = "returned ?x"
  let ?r1 = "\<lparr>szRx = n1, abtRx = buf1\<rparr>"
  let ?st1 = "st\<lparr>logFormat := ?fmt\<rparr>"
  have ex: "executeCommand (logging tr) (dev, []) getf = ((d1, [?x]), ?r1, ?fmt)"
    by (simp add: executeCommand_logging tr)
  show ?thesis
  proof (cases "apdu_size ?fmt = 0")
    case True
    have "extractLogEntries (logging tr) (dev, []) getf rrec st = Inr (1, ?st1, (d1, [?x]), ?r1)"
      using True by (simp add: extractLogEntries_def ex)
    then show ?thesis using True
      by (intro exI [of _ 1] exI [of _ ?st1] exI [of _ d1] exI [of _ "[?x]"] exI [of _ ?r1])
         (simp add: sent_def)
  next
    case False
    define rr where "rr = rrec[5 := push_bit 3 (logSFI st) OR 4]"
    have w: "wr rrec 5 (push_bit 3 (logSFI st) OR 4) = Inr rr"
      using assms(1) by (simp add: wr_def rr_def)
    have unf: "extractLogEntries (logging tr) (dev, []) getf rrec st =
        extractLogEntries_loop (logging tr) rr (unat (logCount st)) 0 (d1, [?x]) ?r1 ?st1"
      using False by (simp add: extractLogEntries_def ex w Let_def)
    have p1: "4 < length rr" using assms(1) by (simp add: rr_def)
    have p2: "unat (logCount st) \<le> length (logEntries ?st1)" using assms(2) by simp
    from extractLogEntries_loop_run [OF p1 p2, of tr 0 d1 "[?x]" ?r1]
    obtain rc st' d' new r' where
      run: "extractLogEntries_loop (logging tr) rr (unat (logCount st)) 0 (d1, [?x]) ?r1 ?st1
              = Inr (rc, st', (d', [?x] @ new), r')"
      and len: "length new \<le> unat (logCount st) - 0"
      and each: "\<forall>k<length new. sent (new ! k) = rr[4 := of_nat (0 + k + 1)] \<and>
                        logEntries st' ! (0 + k) = returned (new ! k)"
      and pre: "\<forall>k. Suc k < length new \<longrightarrow> apdu_size (returned (new ! k)) \<noteq> 0"
      and rc: "rc = 0 \<or> rc = 1"
      and rc0: "rc = 0 \<longleftrightarrow> length new = unat (logCount st) - 0 \<and>
                 (\<forall>k<length new. apdu_size (returned (new ! k)) \<noteq> 0)"
      and rc1: "rc = 1 \<longrightarrow> new \<noteq> [] \<and> apdu_size (returned (last new)) = 0"
      and frame: "st' = ?st1\<lparr>logEntries := logEntries st'\<rparr>"
      by blast
    let ?log = "?x # new"
    have a: "extractLogEntries (logging tr) (dev, []) getf rrec st = Inr (rc, st', (d', ?log), r')"
      using unf run by simp
    have fm: "logFormat st' = ?fmt" by (subst frame) simp
    have c: "\<forall>k<length ?log - 1.
           sent (?log ! (k + 1)) = rrec[5 := push_bit 3 (logSFI st) OR 4, 4 := of_nat (k + 1)] \<and>
           logEntries st' ! k = returned (?log ! (k + 1))"
      using each by (simp add: rr_def del: of_nat_Suc of_nat_add)
    have d: "\<forall>k. k + 1 < length ?log - 1 \<longrightarrow> apdu_size (returned (?log ! (k + 1))) \<noteq> 0"
      using pre by simp
    have e: "rc = 0 \<longleftrightarrow> length ?log - 1 = unat (logCount st) \<and>
                   (\<forall>k<length ?log - 1. apdu_size (returned (?log ! (k + 1))) \<noteq> 0)"
      using rc0 by simp
    have f: "rc \<noteq> 0 \<longrightarrow> rc = 1 \<and> 1 < length ?log \<and> apdu_size (returned (last ?log)) = 0"
      using rc rc1 by auto
    have g: "length ?log - 1 \<le> unat (logCount st)" using len by simp
    have head: "?log \<noteq> [] \<and> sent (hd ?log) = getf \<and> logFormat st' = returned (hd ?log)"
      using fm by (simp add: sent_def)
    have z: "apdu_size (returned (hd ?log)) = 0 \<longrightarrow> rc = 1 \<and> length ?log = 1"
      using False by simp
    note rest = conjI [OF g conjI [OF c conjI [OF d conjI [OF e f]]]]
    show ?thesis
      using a head z rest
      by (intro exI [of _ rc] exI [of _ st'] exI [of _ d'] exI [of _ ?log] exI [of _ r']) blast
  qed
qed

text \<open>The run of the example card against a device whose second log record is refused.\<close>

lemma extractLogEntries_example:
  "extractLogEntries (logging scripted)
     ([(5, [0x00, 0x9A, 0x03, 0x90, 0x00]), (4, [0x00, 0x01, 0x90, 0x00]),
       (4, [0x00, 0x02, 0x6A, 0x82]), (4, [0x00, 0x03, 0x90, 0x00])], [])
     [0x40, 0x01, 0x80, 0xCA, 0x9F, 0x4F, 0x00] [0x40, 0x01, 0x00, 0xB2, 0x00, 0x00, 0x00]
     example_card
   = Inr (1,
      example_card\<lparr>logFormat := \<lparr>apdu_size = 4, apdu_data = [0x9A, 0x03, 0x90, 0x00]\<rparr>,
        logEntries := (logEntries example_card)
          [0 := \<lparr>apdu_size = 3, apdu_data = [0x01, 0x90, 0x00]\<rparr>,
           1 := \<lparr>apdu_size = 0, apdu_data = []\<rparr>]\<rparr>,
      ([(4, [0x00, 0x03, 0x90, 0x00])],
       [([0x40, 0x01, 0x80, 0xCA, 0x9F, 0x4F, 0x00], 5, [0x00, 0x9A, 0x03, 0x90, 0x00]),
        ([0x40, 0x01, 0x00, 0xB2, 0x01, 0x5C, 0x00], 4, [0x00, 0x01, 0x90, 0x00]),
        ([0x40, 0x01, 0x00, 0xB2, 0x02, 0x5C, 0x00], 4, [0x00, 0x02, 0x6A, 0x82])]),
      \<lparr>szRx = 4, abtRx = [0x00, 0x02, 0x6A, 0x82]\<rparr>)"
proof -
  have r: "\<And>x::APDU. replicate 4 x = [x, x, x, x]" by (simp add: numeral_eq_Suc)
  show ?thesis
    by (simp add: extractLogEntries_def extractLogEntries_loop.simps executeCommand_def
        logging_def executeCommand_ret_def checkTrailer_def example_card_def CCInfo_new_def
        wr_def r)
qed

theorem extractLogEntries_spec_witness:
  "\<exists>rc st' dev' log r'.
     extractLogEntries (logging scripted)
       ([(5, [0x00, 0x9A, 0x03, 0x90, 0x00]), (4, [0x00, 0x01, 0x90, 0x00]),
         (4, [0x00, 0x02, 0x6A, 0x82]), (4, [0x00, 0x03, 0x90, 0x00])], [])
       [0x40, 0x01, 0x80, 0xCA, 0x9F, 0x4F, 0x00] [0x40, 0x01, 0x00, 0xB2, 0x00, 0x00, 0x00]
       example_card = Inr (rc, st', (dev', log), r') \<and>
     log \<noteq> [] \<and> sent (hd log) = [0x40, 0x01, 0x80, 0xCA, 0x9F, 0x4F, 0x00] \<and>
     logFormat st' = returned (hd log) \<and>
     (apdu_size (returned (hd log)) = 0 \<longrightarrow> rc = 1 \<and> length log = 1) \<and>
     (apdu_size (returned (hd log)) \<noteq> 0 \<longrightarrow>
        length log - 1 \<le> unat (logCount example_card) \<and>
        (\<forall>k<length log - 1.
           sent (log ! (k + 1)) =
             [0x40, 0x01, 0x00, 0xB2, 0x00, 0x00, 0x00]
               [5 := push_bit 3 (logSFI example_card) OR 4, 4 := of_nat (k + 1)] \<and>
           logEntries st' ! k = returned (log ! (k + 1))) \<and>
        (\<forall>k. k + 1 < length log - 1 \<longrightarrow> apdu_size (returned (log ! (k + 1))) \<noteq> 0) \<and>
        (rc = 0 \<longleftrightarrow> length log - 1 = unat (logCount example_card) \<and>
                   (\<forall>k<length log - 1. apdu_size (returned (log ! (k + 1))) \<noteq> 0)) \<and>
        (rc \<noteq> 0 \<longrightarrow> rc = 1 \<and> 1 < length log \<and> apdu_size (returned (last log)) = 0))"
proof -
  have h1: "6 \<le> length [0x40, 0x01, 0x00, 0xB2, 0x00, 0x00, 0x00 :: byte_t]" by simp
  have h2: "unat (logCount example_card) \<le> length (logEntries example_card)"
    by (simp add: example_card_def CCInfo_new_def)
  show ?thesis by (rule extractLogEntries_spec [OF h1 h2])
qed

section \<open>Properties of the options negotiator\<close>

declare getProcessingOptions_parse.simps [simp del]

lemma take_drop_Cons:
  assumes "take n (drop i xs) = a # r"
  shows "i < length xs \<and> xs ! i = a \<and> 0 < n \<and> r = take (n - 1) (drop (Suc i) xs)"
proof -
  have n: "0 < n" using assms by (cases n) auto
  have i: "i < length xs" using assms by (cases "i < length xs") auto
  then have "drop i xs = xs ! i # drop (Suc i) xs" by (metis Cons_nth_drop_Suc)
  with assms n show ?thesis using i by (cases n) auto
qed

lemma pdol_total_Cons: "pdol_total (q # qs) = unat (snd q) + pdol_total qs"
  by (simp add: pdol_total_def)

text \<open>
  On a well-formed descriptor the first loop computes the pairs of the specification.
\<close>

lemma getProcessingOptions_parse_refines:
  assumes "spec_pdol_pairs xs = Some pairs" and "xs = take (sz - i) (drop i buff)"
    and "sz \<le> length buff"
  shows "getProcessingOptions_parse buff sz i len tags = Inr (len + pdol_total pairs, tags @ pairs)"
  using assms
proof (induction xs arbitrary: i len tags pairs rule: spec_pdol_pairs.induct)
  case 1
  have "\<not> i < sz"
  proof
    assume "i < sz"
    then have "take (sz - i) (drop i buff) \<noteq> []" using 1(3) by simp
    with 1(2) show False by simp
  qed
  with 1 show ?case
    by (simp add: getProcessingOptions_parse.simps [of buff sz i] pdol_total_def)
next
  case (2 t)
  from "2.prems"(1) show ?case by simp
next
  case (3 t x rest)
  from take_drop_Cons [OF "3.prems"(2) [symmetric]]
  have i: "i < length buff" and bi: "buff ! i = t" and n: "0 < sz - i"
    and r1: "x # rest = take (sz - i - 1) (drop (Suc i) buff)" by auto
  from take_drop_Cons [OF r1 [symmetric]]
  have i1: "Suc i < length buff" and bi1: "buff ! Suc i = x" and n1: "0 < sz - i - 1"
    and r2: "rest = take (sz - i - 1 - 1) (drop (Suc (Suc i)) buff)" by auto
  have lt: "i < sz" using n by simp
  show ?case
  proof (cases "t = 0x5F \<or> t = 0x9F \<or> t = 0xBF")
    case True
    then obtain l rest' ps where rest: "rest = l # rest'"
      and ps: "spec_pdol_pairs rest' = Some ps" and pairs: "pairs = (tag16 t x, l) # ps"
      using "3.prems"(1) by (auto split: list.splits)
    from take_drop_Cons [OF r2 [symmetric, unfolded rest]]
    have i2: "Suc (Suc i) < length buff" and bi2: "buff ! Suc (Suc i) = l"
      and r3: "rest' = take (sz - i - 1 - 1 - 1) (drop (Suc (Suc (Suc i))) buff)" by auto
    have r3': "rest' = take (sz - (i + 2 + 1)) (drop (i + 2 + 1) buff)"
      using r3 by (simp add: numeral_3_eq_3)
    have tag: "getProcessingOptions_tag buff i = Inr ((tag16 t x, l), i + 2)"
      using True i i1 i2 bi bi1 bi2 by (auto simp: getProcessingOptions_tag_def rd_def)
    have "getProcessingOptions_parse buff sz i len tags =
          getProcessingOptions_parse buff sz (i + 2 + 1) (len + unat l) (tags @ [(tag16 t x, l)])"
      using lt by (subst getProcessingOptions_parse.simps) (simp add: tag)
    also have "\<dots> = Inr (len + unat l + pdol_total ps, (tags @ [(tag16 t x, l)]) @ ps)"
      using "3.IH"(1) [OF True rest ps r3' "3.prems"(3)] .
    finally show ?thesis by (simp add: pairs pdol_total_Cons)
  next
    case False
    then obtain ps where ps: "spec_pdol_pairs rest = Some ps" and pairs: "pairs = (ucast t, x) # ps"
      using "3.prems"(1) by auto
    have r2': "rest = take (sz - (i + 1 + 1)) (drop (i + 1 + 1) buff)"
      using r2 by simp
    have tag: "getProcessingOptions_tag buff i = Inr ((ucast t, x), i + 1)"
      using False i i1 bi bi1 by (auto simp: getProcessingOptions_tag_def rd_def)
    have "getProcessingOptions_parse buff sz i len tags =
          getProcessingOptions_parse buff sz (i + 1 + 1) (len + unat x) (tags @ [(ucast t, x)])"
      using lt by (subst getProcessingOptions_parse.simps) (simp add: tag)
    also have "\<dots> = Inr (len + unat x + pdol_total ps, (tags @ [(ucast t, x)]) @ ps)"
      using "3.IH"(2) [OF False ps r2' "3.prems"(3)] .
    finally show ?thesis by (simp add: pairs pdol_total_Cons)
  qed
qed

lemma getProcessingOptions_values_ok:
  assumes "\<forall>q\<in>set pairs. pdol_known q" and "length gpo + pdol_total pairs \<le> cap"
  shows "getProcessingOptions_values cap gpo pairs = Inr (gpo @ concat (map pdol_value pairs))"
  using assms
proof (induction pairs arbitrary: gpo)
  case Nil
  then show ?case by simp
next
  case (Cons q pairs)
  obtain first second where q: "q = (first, second)" by (cases q)
  from Cons.prems(1) obtain v where v: "map_of PDOLValues first = Some v" "unat second \<le> length v"
    by (auto simp: q pdol_known_def split: option.splits)
  have put: "gpo_put cap gpo (take (unat second) v) = Inr (gpo @ take (unat second) v)"
    using Cons.prems(2) v(2) by (simp add: gpo_put_def q pdol_total_Cons)
  have "getProcessingOptions_values cap (gpo @ take (unat second) v) pairs =
        Inr ((gpo @ take (unat second) v) @ concat (map pdol_value pairs))"
    using Cons.prems v(2) by (intro Cons.IH) (simp_all add: q pdol_total_Cons)
  moreover have "pdol_value q = take (unat second) v"
    using v by (simp add: q pdol_value_def)
  ultimately show ?case
    using v by (simp add: q PDOLValues_at_def put)
qed

lemma gpo_layout:
  assumes "getProcessingOptions_values cap (header @ [a, c, b]) tags = Inr ((header @ [a, c, b]) @ vs)"
    and "length header + length vs + 4 \<le> cap"
  shows "bindE (gpo_put cap [] header) (\<lambda>g0.
           bindE (gpo_put cap g0 [a]) (\<lambda>g1.
             bindE (gpo_put cap g1 [c]) (\<lambda>g2.
               bindE (gpo_put cap g2 [b]) (\<lambda>g3.
                 bindE (getProcessingOptions_values cap g3 tags) (\<lambda>g4.
                   bindE (gpo_put cap g4 [z]) (\<lambda>g5. Inr (n, g5)))))))
         = Inr (n, header @ [a, c, b] @ vs @ [z])"
  using assms by (simp add: gpo_put_def)

lemma pdol_values_length: "length (concat (map pdol_value pairs)) \<le> pdol_total pairs"
proof (induction pairs)
  case Nil
  show ?case by simp
next
  case (Cons q qs)
  have "length (pdol_value q) \<le> unat (snd q)"
    by (simp add: pdol_value_def split: option.splits)
  with Cons show ?case by (simp add: pdol_total_Cons)
qed

lemma getProcessingOptions_command_refines:
  assumes "apdu_size p \<le> length (apdu_data p)"
    and "spec_pdol_pairs (take (apdu_size p) (apdu_data p)) = Some pairs"
    and "\<forall>q\<in>set pairs. pdol_known q"
    and "length header + pdol_total pairs + 4 \<le> cap"
  shows "getProcessingOptions_command header cap p =
           Inr (pdol_total pairs,
                header @ [of_nat (pdol_total pairs + 2), 0x83, of_nat (pdol_total pairs)] @
                concat (map pdol_value pairs) @ [0])"
proof -
  let ?n = "pdol_total pairs"
  have parse: "getProcessingOptions_parse (apdu_data p) (apdu_size p) 0 0 [] = Inr (?n, pairs)"
    using getProcessingOptions_parse_refines [OF assms(2) _ assms(1), of 0 0 "[]"] by simp
  let ?g3 = "header @ [of_nat (?n + 2), 0x83, of_nat ?n]"
  have vals: "getProcessingOptions_values cap ?g3 pairs = Inr (?g3 @ concat (map pdol_value pairs))"
    using assms(4) by (intro getProcessingOptions_values_ok [OF assms(3)]) simp
  have len: "length header + length (concat (map pdol_value pairs)) + 4 \<le> cap"
    using assms(4) pdol_values_length [of pairs] by simp
  show ?thesis
    unfolding getProcessingOptions_command_def
    by (simp only: parse bindE_Inr prod.case) (rule gpo_layout [OF vals len])
qed

lemma tag16_high: "ucast (drop_bit 8 (tag16 hi lo)) = hi"
  unfolding tag16_def by (rule bit_word_eqI) (auto simp: bit_simps dest: bit_imp_le_length)

lemma tag16_low: "ucast (tag16 hi lo) = lo"
  unfolding tag16_def by (rule bit_word_eqI) (auto simp: bit_simps dest: bit_imp_le_length)

lemma tag16_big_endian: "unat (tag16 hi lo) = 256 * unat hi + unat lo"
proof -
  have bh: "unat hi < 256" using unsigned_less [of hi, where ?'a = nat] by simp
  have bl: "unat lo < 256" using unsigned_less [of lo, where ?'a = nat] by simp
  have d: "push_bit 8 (ucast hi :: 16 word) OR ucast lo = push_bit 8 (ucast hi) + ucast lo"
    by (rule disjunctive_add [symmetric]) (auto simp: bit_simps dest: bit_imp_le_length)
  have h: "unat (ucast hi :: 16 word) = unat hi"
    using bh by (simp add: unsigned_ucast_eq take_bit_nat_eq_self)
  have l: "unat (ucast lo :: 16 word) = unat lo"
    using bl by (simp add: unsigned_ucast_eq take_bit_nat_eq_self)
  have p: "unat (push_bit 8 (ucast hi :: 16 word)) = 256 * unat hi"
  proof -
    have "unat (push_bit 8 (ucast hi :: 16 word)) = take_bit 16 (push_bit 8 (unat hi))"
      by (simp only: unsigned_push_bit_eq h) simp
    also have "\<dots> = 256 * unat hi"
      using bh by (simp add: push_bit_eq_mult take_bit_nat_eq_self)
    finally show ?thesis .
  qed
  show ?thesis
    unfolding tag16_def d using p l bh bl by (simp add: unat_word_ariths)
qed

lemma getProcessingOptions_tag_two:
  assumes "i + 2 < length buff" and "buff ! i = 0x5F \<or> buff ! i = 0x9F \<or> buff ! i = 0xBF"
  shows "getProcessingOptions_tag buff i =
           Inr ((tag16 (buff ! i) (buff ! (i + 1)), buff ! (i + 2)), i + 2)"
  using assms by (auto simp: getProcessingOptions_tag_def rd_def)

lemma getProcessingOptions_tag_one:
  assumes "i + 1 < length buff" and "\<not> (buff ! i = 0x5F \<or> buff ! i = 0x9F \<or> buff ! i = 0xBF)"
  shows "getProcessingOptions_tag buff i = Inr ((ucast (buff ! i), buff ! (i + 1)), i + 1)"
  using assms by (auto simp: getProcessingOptions_tag_def rd_def)

lemma getProcessingOptions_sends:
  assumes "getProcessingOptions_command header cap (pdol st) = Inr (len, cmd)"
  shows "getProcessingOptions tr dev header cap st =
           Inr (if apdu_size (snd (snd (executeCommand tr dev cmd))) = 0 then 1 else 0,
                fst (executeCommand tr dev cmd), fst (snd (executeCommand tr dev cmd)))"
  using assms by (simp add: getProcessingOptions_def split: prod.splits)

lemma getProcessingOptions_logged:
  assumes "getProcessingOptions_command header cap (pdol st) = Inr (len, cmd)"
  shows "\<exists>dev' n buf. tr dev cmd = (dev', n, buf) \<and>
           getProcessingOptions (logging tr) (dev, log) header cap st =
             Inr (if apdu_size (returned (cmd, n, buf)) = 0 then 1 else 0,
                  (dev', log @ [(cmd, n, buf)]), \<lparr>szRx = n, abtRx = buf\<rparr>)"
proof -
  obtain dev' n buf where t: "tr dev cmd = (dev', n, buf)" by (cases "tr dev cmd") auto
  then show ?thesis
    using assms by (simp add: getProcessingOptions_def executeCommand_logging)
qed

lemma getProcessingOptions_command_unknown:
  assumes "length header + 3 \<le> cap"
  shows "getProcessingOptions_parse ([0xBF, 0x0C, 0x05] @ rest) 3 0 0 [] = Inr (5, [(0xBF0C, 0x05)]) \<and>
         getProcessingOptions_command header cap
           \<lparr>apdu_size = 3, apdu_data = [0xBF, 0x0C, 0x05] @ rest\<rparr> = Inl OutOfRange"
proof -
  have s: "spec_pdol_pairs [0xBF, 0x0C, 0x05] = Some [(0xBF0C, 0x05)]"
    by (simp add: tag16_def)
  have parse: "getProcessingOptions_parse ([0xBF, 0x0C, 0x05] @ rest) 3 0 0 [] =
                 Inr (0 + pdol_total [(0xBF0C, 0x05)], [] @ [(0xBF0C, 0x05)])"
    by (rule getProcessingOptions_parse_refines [OF s]) simp_all
  have t: "pdol_total [(0xBF0C :: 16 word, 0x05 :: byte_t)] = 5" by (simp add: pdol_total_def)
  have parse': "getProcessingOptions_parse ([0xBF, 0x0C, 0x05] @ rest) 3 0 0 [] =
                 Inr (5, [(0xBF0C, 0x05)])"
    using parse by (simp add: t)
  have at: "PDOLValues_at 0xBF0C = Inl OutOfRange"
    by (simp add: PDOLValues_at_def PDOLValues_def)
  have "getProcessingOptions_command header cap
           \<lparr>apdu_size = 3, apdu_data = [0xBF, 0x0C, 0x05] @ rest\<rparr> = Inl OutOfRange"
    using assms
    by (simp add: getProcessingOptions_command_def parse' gpo_put_def at del: append.simps)
  with parse' show ?thesis by simp
qed

text \<open>
  C3: a first byte \<open>0x5F\<close>, \<open>0x9F\<close> or \<open>0xBF\<close> at the head of a pair is read as
  the high byte of a two-byte big-endian tag and the length follows it; any other byte is
  a one-byte tag. For every PDOL that is a sequence of such pairs the first loop returns
  the pairs in order and the sum of their lengths as \<open>pdol_response_len\<close>, whatever
  the tags. When the tags are in the table and the command has room,
  \<open>getProcessingOptions\<close> sends exactly one command: the header, Lc = the sum plus 2,
  the tag \<open>0x83\<close>, the sum, the values of the pairs in the order of the descriptor,
  and a final \<open>0x00\<close>; it returns 1 when \<open>executeCommand\<close> returns an empty
  \<open>APDU\<close> for it and 0 otherwise. For the descriptor \<open>9F 02 06\<close>:
  \<open>pdol_response_len = 6\<close>, Lc = 8, \<open>0x83\<close>, 6, the six bytes \<open>00 00 10 00 00 00\<close> of
  tag \<open>0x9F02\<close>, and \<open>0x00\<close>. The descriptor \<open>BF 0C 05\<close> is read as the pair of
  tag \<open>0xBF0C\<close> and length 5; the table has no value for it, \<open>PDOLValues.at\<close> throws
  and nothing is sent.
\<close>

theorem getProcessingOptions_spec:
  "(i + 2 < length buff \<and> (buff ! i = 0x5F \<or> buff ! i = 0x9F \<or> buff ! i = 0xBF) \<longrightarrow>
      getProcessingOptions_tag buff i =
        Inr ((tag16 (buff ! i) (buff ! (i + 1)), buff ! (i + 2)), i + 2)) \<and>
   (j + 1 < length buff \<and> \<not> (buff ! j = 0x5F \<or> buff ! j = 0x9F \<or> buff ! j = 0xBF) \<longrightarrow>
      getProcessingOptions_tag buff j = Inr ((ucast (buff ! j), buff ! (j + 1)), j + 1)) \<and>
   unat (tag16 hi lo) = 256 * unat hi + unat lo \<and>
   (\<forall>pairs. apdu_size (pdol st) \<le> length (apdu_data (pdol st)) \<and>
            spec_pdol_pairs (take (apdu_size (pdol st)) (apdu_data (pdol st))) = Some pairs \<longrightarrow>
      getProcessingOptions_parse (apdu_data (pdol st)) (apdu_size (pdol st)) 0 0 [] =
        Inr (pdol_total pairs, pairs)) \<and>
   (\<forall>pairs cmd.
      apdu_size (pdol st) \<le> length (apdu_data (pdol st)) \<and>
      spec_pdol_pairs (take (apdu_size (pdol st)) (apdu_data (pdol st))) = Some pairs \<and>
      (\<forall>q\<in>set pairs. pdol_known q) \<and>
      length header + pdol_total pairs + 4 \<le> cap \<and>
      cmd = header @ [of_nat (pdol_total pairs + 2), 0x83, of_nat (pdol_total pairs)] @
            concat (map pdol_value pairs) @ [0] \<longrightarrow>
      getProcessingOptions_command header cap (pdol st) = Inr (pdol_total pairs, cmd) \<and>
      getProcessingOptions tr dev header cap st =
        Inr (if apdu_size (snd (snd (executeCommand tr dev cmd))) = 0 then 1 else 0,
             fst (executeCommand tr dev cmd), fst (snd (executeCommand tr dev cmd))) \<and>
      (\<exists>dev' n buf.
         tr dev cmd = (dev', n, buf) \<and>
         getProcessingOptions (logging tr) (dev, log) header cap st =
           Inr (if apdu_size (returned (cmd, n, buf)) = 0 then 1 else 0,
                (dev', log @ [(cmd, n, buf)]), \<lparr>szRx = n, abtRx = buf\<rparr>))) \<and>
   (length header + 10 \<le> cap \<longrightarrow>
      getProcessingOptions_command header cap
        \<lparr>apdu_size = 3, apdu_data = [0x9F, 0x02, 0x06] @ rest\<rparr> =
        Inr (6, header @ [8, 0x83, 6] @ [0x00, 0x00, 0x10, 0x00, 0x00, 0x00] @ [0x00]) \<and>
      (\<exists>dev' n buf.
         tr dev (header @ [8, 0x83, 6] @ [0x00, 0x00, 0x10, 0x00, 0x00, 0x00] @ [0x00]) =
           (dev', n, buf) \<and>
         getProcessingOptions (logging tr) (dev, log) header cap
           (st\<lparr>pdol := \<lparr>apdu_size = 3, apdu_data = [0x9F, 0x02, 0x06] @ rest\<rparr>\<rparr>) =
           Inr (if apdu_size (returned
                     (header @ [8, 0x83, 6] @ [0x00, 0x00, 0x10, 0x00, 0x00, 0x00] @ [0x00],
                      n, buf)) = 0
                then 1 else 0,
                (dev', log @ [(header @ [8, 0x83, 6] @ [0x00, 0x00, 0x10, 0x00, 0x00, 0x00] @ [0x00],
                               n, buf)]),
                \<lparr>szRx = n, abtRx = buf\<rparr>))) \<and>
   spec_pdol_pairs [0x9F, 0x02, 0x06] = Some [(0x9F02, 0x06)] \<and>
   spec_pdol_pairs [0xBF, 0x0C, 0x05] = Some [(0xBF0C, 0x05)] \<and>
   (length header + 3 \<le> cap \<longrightarrow>
      getProcessingOptions_parse ([0xBF, 0x0C, 0x05] @ rest) 3 0 0 [] =
        Inr (5, [(0xBF0C, 0x05)]) \<and>
      getProcessingOptions_command header cap
        \<lparr>apdu_size = 3, apdu_data = [0xBF, 0x0C, 0x05] @ rest\<rparr> = Inl OutOfRange \<and>
      getProcessingOptions tr dev header cap
        (st\<lparr>pdol := \<lparr>apdu_size = 3, apdu_data = [0xBF, 0x0C, 0x05] @ rest\<rparr>\<rparr>) =
        Inl OutOfRange)"
proof -
  have two: "i + 2 < length buff \<and> (buff ! i = 0x5F \<or> buff ! i = 0x9F \<or> buff ! i = 0xBF) \<longrightarrow>
      getProcessingOptions_tag buff i =
        Inr ((tag16 (buff ! i) (buff ! (i + 1)), buff ! (i + 2)), i + 2)"
    using getProcessingOptions_tag_two [of i buff] by blast
  have one: "j + 1 < length buff \<and> \<not> (buff ! j = 0x5F \<or> buff ! j = 0x9F \<or> buff ! j = 0xBF) \<longrightarrow>
      getProcessingOptions_tag buff j = Inr ((ucast (buff ! j), buff ! (j + 1)), j + 1)"
    using getProcessingOptions_tag_one [of j buff] by blast
  have parse: "\<forall>pairs. apdu_size (pdol st) \<le> length (apdu_data (pdol st)) \<and>
            spec_pdol_pairs (take (apdu_size (pdol st)) (apdu_data (pdol st))) = Some pairs \<longrightarrow>
      getProcessingOptions_parse (apdu_data (pdol st)) (apdu_size (pdol st)) 0 0 [] =
        Inr (pdol_total pairs, pairs)"
  proof (intro allI impI)
    fix pairs
    assume h: "apdu_size (pdol st) \<le> length (apdu_data (pdol st)) \<and>
            spec_pdol_pairs (take (apdu_size (pdol st)) (apdu_data (pdol st))) = Some pairs"
    from getProcessingOptions_parse_refines
           [of _ pairs "apdu_size (pdol st)" 0 "apdu_data (pdol st)" 0 "[]"] h
    show "getProcessingOptions_parse (apdu_data (pdol st)) (apdu_size (pdol st)) 0 0 [] =
        Inr (pdol_total pairs, pairs)" by simp
  qed
  have cmd: "getProcessingOptions_command header cap (pdol s) = Inr (pdol_total pairs, cmd) \<and>
      getProcessingOptions tr dev header cap s =
        Inr (if apdu_size (snd (snd (executeCommand tr dev cmd))) = 0 then 1 else 0,
             fst (executeCommand tr dev cmd), fst (snd (executeCommand tr dev cmd))) \<and>
      (\<exists>dev' n buf.
         tr dev cmd = (dev', n, buf) \<and>
         getProcessingOptions (logging tr) (dev, log) header cap s =
           Inr (if apdu_size (returned (cmd, n, buf)) = 0 then 1 else 0,
                (dev', log @ [(cmd, n, buf)]), \<lparr>szRx = n, abtRx = buf\<rparr>))"
    if h: "apdu_size (pdol s) \<le> length (apdu_data (pdol s)) \<and>
      spec_pdol_pairs (take (apdu_size (pdol s)) (apdu_data (pdol s))) = Some pairs \<and>
      (\<forall>q\<in>set pairs. pdol_known q) \<and>
      length header + pdol_total pairs + 4 \<le> cap \<and>
      cmd = header @ [of_nat (pdol_total pairs + 2), 0x83, of_nat (pdol_total pairs)] @
            concat (map pdol_value pairs) @ [0]" for pairs cmd s
  proof -
    have c0: "getProcessingOptions_command header cap (pdol s) =
        Inr (pdol_total pairs,
             header @ [of_nat (pdol_total pairs + 2), 0x83, of_nat (pdol_total pairs)] @
             concat (map pdol_value pairs) @ [0])"
      using h by (intro getProcessingOptions_command_refines) simp_all
    have c: "getProcessingOptions_command header cap (pdol s) = Inr (pdol_total pairs, cmd)"
      using c0 h by simp
    show ?thesis
      using c getProcessingOptions_sends [OF c, of tr dev]
        getProcessingOptions_logged [OF c, of tr dev log] by blast
  qed
  let ?p = "\<lparr>apdu_size = 3, apdu_data = [0x9F, 0x02, 0x06] @ rest\<rparr>"
  let ?g = "header @ [8, 0x83, 6] @ [0x00, 0x00, 0x10, 0x00, 0x00, 0x00] @ [0x00]"
  have s: "spec_pdol_pairs [0x9F, 0x02, 0x06] = Some [(0x9F02, 0x06)]"
    by (simp add: tag16_def)
  have sb: "spec_pdol_pairs [0xBF, 0x0C, 0x05] = Some [(0xBF0C, 0x05)]"
    by (simp add: tag16_def)
  have ex: "getProcessingOptions_command header cap ?p = Inr (6, ?g) \<and>
      (\<exists>dev' n buf.
         tr dev ?g = (dev', n, buf) \<and>
         getProcessingOptions (logging tr) (dev, log) header cap (st\<lparr>pdol := ?p\<rparr>) =
           Inr (if apdu_size (returned (?g, n, buf)) = 0 then 1 else 0,
                (dev', log @ [(?g, n, buf)]), \<lparr>szRx = n, abtRx = buf\<rparr>))"
    if h: "length header + 10 \<le> cap"
  proof -
    have k: "\<forall>q\<in>set [(0x9F02 :: 16 word, 0x06 :: byte_t)]. pdol_known q"
      by (simp add: pdol_known_def PDOLValues_def)
    have t: "pdol_total [(0x9F02 :: 16 word, 0x06 :: byte_t)] = 6"
      by (simp add: pdol_total_def)
    have v: "pdol_value (0x9F02, 0x06) = [0x00, 0x00, 0x10, 0x00, 0x00, 0x00]"
      by (simp add: pdol_value_def PDOLValues_def)
    have hyp: "apdu_size (pdol (st\<lparr>pdol := ?p\<rparr>)) \<le> length (apdu_data (pdol (st\<lparr>pdol := ?p\<rparr>))) \<and>
      spec_pdol_pairs (take (apdu_size (pdol (st\<lparr>pdol := ?p\<rparr>)))
                            (apdu_data (pdol (st\<lparr>pdol := ?p\<rparr>)))) = Some [(0x9F02, 0x06)] \<and>
      (\<forall>q\<in>set [(0x9F02 :: 16 word, 0x06 :: byte_t)]. pdol_known q) \<and>
      length header + pdol_total [(0x9F02 :: 16 word, 0x06 :: byte_t)] + 4 \<le> cap \<and>
      ?g = header @ [of_nat (pdol_total [(0x9F02 :: 16 word, 0x06 :: byte_t)] + 2), 0x83,
                     of_nat (pdol_total [(0x9F02 :: 16 word, 0x06 :: byte_t)])] @
            concat (map pdol_value [(0x9F02, 0x06)]) @ [0]"
      using s k h by (simp add: t v)
    from cmd [OF hyp] show ?thesis by (simp add: t)
  qed
  have bf: "getProcessingOptions_parse ([0xBF, 0x0C, 0x05] @ rest) 3 0 0 [] =
        Inr (5, [(0xBF0C, 0x05)]) \<and>
      getProcessingOptions_command header cap
        \<lparr>apdu_size = 3, apdu_data = [0xBF, 0x0C, 0x05] @ rest\<rparr> = Inl OutOfRange \<and>
      getProcessingOptions tr dev header cap
        (st\<lparr>pdol := \<lparr>apdu_size = 3, apdu_data = [0xBF, 0x0C, 0x05] @ rest\<rparr>\<rparr>) =
        Inl OutOfRange"
    if h: "length header + 3 \<le> cap"
    using getProcessingOptions_command_unknown [OF h, of rest]
    by (simp add: getProcessingOptions_def)
  show ?thesis
    using two one tag16_big_endian [of hi lo] parse cmd [of st] ex s sb bf
    by blast
qed

theorem getProcessingOptions_spec_witness:
  "getProcessingOptions_tag [0x9F, 0x66, 0x04, 0x9A, 0x03, 0xBF, 0x0C, 0x02, 0x00, 0x00] 5 =
     Inr ((0xBF0C, 0x02), 7) \<and>
   getProcessingOptions_tag [0x9F, 0x66, 0x04, 0x9A, 0x03, 0xBF, 0x0C, 0x02, 0x00, 0x00] 3 =
     Inr ((0x9A, 0x03), 4) \<and>
   unat (tag16 0xBF 0x0C) = 0xBF0C \<and>
   getProcessingOptions_parse [0x9F, 0x66, 0x04, 0x9A, 0x03, 0x5F, 0x2A, 0x02, 0x00, 0x00] 8 0 0 [] =
     Inr (9, [(0x9F66, 0x04), (0x9A, 0x03), (0x5F2A, 0x02)]) \<and>
   getProcessingOptions_command [0x80, 0xA8, 0x00, 0x00] 32
     \<lparr>apdu_size = 8, apdu_data = [0x9F, 0x66, 0x04, 0x9A, 0x03, 0x5F, 0x2A, 0x02, 0x00, 0x00]\<rparr> =
     Inr (9, [0x80, 0xA8, 0x00, 0x00, 0x0B, 0x83, 0x09,
              0xB6, 0x20, 0xC0, 0x00, 0x15, 0x01, 0x01, 0x01, 0x24, 0x00]) \<and>
   getProcessingOptions (logging scripted) ([(4, [0x00, 0x80, 0x90, 0x00])], [])
     [0x80, 0xA8, 0x00, 0x00] 32
     (example_card\<lparr>pdol := \<lparr>apdu_size = 8,
        apdu_data = [0x9F, 0x66, 0x04, 0x9A, 0x03, 0x5F, 0x2A, 0x02, 0x00, 0x00]\<rparr>\<rparr>) =
     Inr (0,
          ([], [([0x80, 0xA8, 0x00, 0x00, 0x0B, 0x83, 0x09,
                  0xB6, 0x20, 0xC0, 0x00, 0x15, 0x01, 0x01, 0x01, 0x24, 0x00],
                 4, [0x00, 0x80, 0x90, 0x00])]),
          \<lparr>szRx = 4, abtRx = [0x00, 0x80, 0x90, 0x00]\<rparr>) \<and>
   getProcessingOptions_command [0x80, 0xA8, 0x00, 0x00] 32
     \<lparr>apdu_size = 3, apdu_data = [0x9F, 0x02, 0x06] @ [0x00, 0x00]\<rparr> =
     Inr (6, [0x80, 0xA8, 0x00, 0x00, 0x08, 0x83, 0x06,
              0x00, 0x00, 0x10, 0x00, 0x00, 0x00, 0x00]) \<and>
   getProcessingOptions (logging scripted) ([(4, [0x00, 0x80, 0x6A, 0x82])], [])
     [0x80, 0xA8, 0x00, 0x00] 32
     (example_card\<lparr>pdol := \<lparr>apdu_size = 3, apdu_data = [0x9F, 0x02, 0x06] @ [0x00, 0x00]\<rparr>\<rparr>) =
     Inr (1,
          ([], [([0x80, 0xA8, 0x00, 0x00, 0x08, 0x83, 0x06,
                  0x00, 0x00, 0x10, 0x00, 0x00, 0x00, 0x00],
                 4, [0x00, 0x80, 0x6A, 0x82])]),
          \<lparr>szRx = 4, abtRx = [0x00, 0x80, 0x6A, 0x82]\<rparr>) \<and>
   getProcessingOptions scripted [(4, [0x00, 0x80, 0x90, 0x00])] [0x80, 0xA8, 0x00, 0x00] 32
     (example_card\<lparr>pdol := \<lparr>apdu_size = 3, apdu_data = [0xBF, 0x0C, 0x05] @ [0x00, 0x00]\<rparr>\<rparr>) =
     Inl OutOfRange"
proof -
  let ?buff = "[0x9F, 0x66, 0x04, 0x9A, 0x03, 0xBF, 0x0C, 0x02, 0x00, 0x00] :: byte_t list"
  let ?data = "[0x9F, 0x66, 0x04, 0x9A, 0x03, 0x5F, 0x2A, 0x02, 0x00, 0x00] :: byte_t list"
  let ?pairs = "[(0x9F66, 0x04), (0x9A, 0x03), (0x5F2A, 0x02)] :: (16 word \<times> byte_t) list"
  let ?st = "example_card\<lparr>pdol := \<lparr>apdu_size = 8, apdu_data = ?data\<rparr>\<rparr>"
  let ?h = "[0x80, 0xA8, 0x00, 0x00] :: byte_t list"
  let ?cmd = "[0x80, 0xA8, 0x00, 0x00, 0x0B, 0x83, 0x09,
               0xB6, 0x20, 0xC0, 0x00, 0x15, 0x01, 0x01, 0x01, 0x24, 0x00] :: byte_t list"
  have s: "spec_pdol_pairs (take (apdu_size (pdol ?st)) (apdu_data (pdol ?st))) = Some ?pairs"
    by (simp add: tag16_def)
  have k: "\<forall>q\<in>set ?pairs. pdol_known q"
    by (simp add: pdol_known_def PDOLValues_def)
  have t: "pdol_total ?pairs = 9"
    by (simp add: pdol_total_def)
  have v: "concat (map pdol_value ?pairs) = [0xB6, 0x20, 0xC0, 0x00, 0x15, 0x01, 0x01, 0x01, 0x24]"
    by (simp add: pdol_value_def PDOLValues_def)
  have g1: "tag16 0xBF 0x0C = 0xBF0C" by (simp add: tag16_def)
  have r1: "returned (c, 4, [0x00, 0x80, 0x90, 0x00]) =
              \<lparr>apdu_size = 3, apdu_data = [0x80, 0x90, 0x00]\<rparr>" for c
    by (simp add: returned_def executeCommand_ret_def checkTrailer_def)
  have r2: "returned (c, 4, [0x00, 0x80, 0x6A, 0x82]) = \<lparr>apdu_size = 0, apdu_data = []\<rparr>" for c
    by (simp add: returned_def executeCommand_ret_def checkTrailer_def)
  note a = getProcessingOptions_spec
     [where i = 5 and j = 3 and buff = ?buff and hi = "0xBF" and lo = "0x0C" and st = ?st
        and header = ?h and cap = 32 and tr = scripted
        and dev = "[(4, [0x00, 0x80, 0x90, 0x00])]" and log = "[]" and rest = "[0x00, 0x00]"]
  note b = getProcessingOptions_spec
     [where i = 5 and j = 3 and buff = ?buff and hi = "0xBF" and lo = "0x0C" and st = ?st
        and header = ?h and cap = 32 and tr = scripted
        and dev = "[(4, [0x00, 0x80, 0x6A, 0x82])]" and log = "[]" and rest = "[0x00, 0x00]"]
  show ?thesis
    using a b s k t v by (simp add: g1 r1 r2)
qed

section \<open>Properties of the presentation\<close>

declare printPaylog_format.simps [simp del] printPaylog_amount.simps [simp del]
  printPaylog_run.simps [simp del] printTracksInfo_pan.simps [simp del]

lemma push_bit_4_low: "push_bit 4 (b :: byte_t) = push_bit 4 (b AND 0x0F)"
proof -
  have "b AND 0x0F = take_bit 4 b" by (simp add: take_bit_eq_mask mask_eq_exp_minus_1)
  then have "push_bit 4 (b AND 0x0F) = take_bit (4 + 4) (push_bit 4 b)"
    by (simp only: push_bit_take_bit)
  also have "\<dots> = push_bit 4 b" by (simp add: take_bit_word_eq_self)
  finally show ?thesis by simp
qed

lemma year_byte:
  assumes "b8 AND 0x0F = (0x01 :: byte_t)"
  shows "push_bit 4 b8 OR drop_bit 4 (0x50 :: byte_t) = 0x15"
proof -
  have "push_bit 4 b8 = push_bit 4 (b8 AND 0x0F)" by (rule push_bit_4_low)
  also have "\<dots> = 0x10" by (simp add: assms)
  finally show ?thesis by simp
qed

lemma month_byte:
  assumes "drop_bit 4 b10 = (0x06 :: byte_t)"
  shows "push_bit 4 (0x50 :: byte_t) OR drop_bit 4 b10 = 0x06"
  by (simp add: assms)

text \<open>The loop over the first 8 bytes puts a space after every second byte.\<close>

lemma printTracksInfo_pan_pairs:
  "printTracksInfo_pan hex ([b0, b1, b2, b3, b4, b5, b6, b7] @ rest) 0 =
     Inr (hex b0 @ hex b1 @ '' '' @ hex b2 @ hex b3 @ '' '' @ hex b4 @ hex b5 @ '' '' @
          hex b6 @ hex b7 @ '' '')"
  by (simp add: printTracksInfo_pan.simps rd_def)

text \<open>
  C6, as the specification states it, fails: with bytes rendered as pairs of
  hexadecimal digits, the account number of the payload
  \<open>12 34 56 78 90 12 34 56 D1 50 60\<close> is written \<open>1234 5678 9012 3456\<close> and a space,
  not \<open>12 34 56 78 90 12 34 56\<close>.
\<close>

theorem printTracksInfo_pan_counterexample:
  "printTracksInfo_pan HEX [0x12, 0x34, 0x56, 0x78, 0x90, 0x12, 0x34, 0x56, 0xD1, 0x50, 0x60] 0 =
     Inr ''1234 5678 9012 3456 '' \<and>
   printTracksInfo_pan HEX [0x12, 0x34, 0x56, 0x78, 0x90, 0x12, 0x34, 0x56, 0xD1, 0x50, 0x60] 0 \<noteq>
     Inr ''12 34 56 78 90 12 34 56''"
  by (simp add: printTracksInfo_pan.simps rd_def HEX_def hex_digit_def)

text \<open>
  C6, amended: for a track-2 payload whose first 8 bytes are \<open>12 34 56 78 90 12 34 56\<close>,
  followed by one separator nibble (the high nibble of \<open>b8\<close>), the year nibbles 1 and 5
  and the month nibbles 0 and 6, the decoder writes the 8 bytes in groups of two, a space
  after each group, and the expiry as the month byte \<open>06\<close>, \<open>/20\<close> and the year byte
  \<open>15\<close>.
\<close>

theorem printTracksInfo_track2:
  assumes "b8 AND 0x0F = 0x01"
    and "drop_bit 4 b10 = 0x06"
    and "apdu_data (track2EquivalentData st) =
           [0x12, 0x34, 0x56, 0x78, 0x90, 0x12, 0x34, 0x56, b8, 0x50, b10] @ rest"
  shows "printTracksInfo hex st =
           Inr (''PAN: '' @ hex 0x12 @ hex 0x34 @ '' '' @ hex 0x56 @ hex 0x78 @ '' '' @
                hex 0x90 @ hex 0x12 @ '' '' @ hex 0x34 @ hex 0x56 @ '' '' @ endl @
                ''Expiry date: '' @ hex 0x06 @ ''/20'' @ hex 0x15 @ endl)"
proof -
  let ?buff = "[0x12, 0x34, 0x56, 0x78, 0x90, 0x12, 0x34, 0x56, b8, 0x50, b10] @ rest"
  have pan: "printTracksInfo_pan hex ?buff 0 =
     Inr (hex 0x12 @ hex 0x34 @ '' '' @ hex 0x56 @ hex 0x78 @ '' '' @ hex 0x90 @ hex 0x12 @ '' '' @
          hex 0x34 @ hex 0x56 @ '' '')"
    using printTracksInfo_pan_pairs [where rest = "[b8, 0x50, b10] @ rest"] by simp
  have expiry: "printTracksInfo_expiry hex ?buff =
     Inr (''Expiry date: '' @ hex 0x06 @ ''/20'' @ hex 0x15 @ endl)"
  proof -
    have r: "rd ?buff 8 = Inr b8" "rd ?buff 9 = Inr 0x50" "rd ?buff 10 = Inr b10"
      by (simp_all add: rd_def)
    show ?thesis
      by (simp only: printTracksInfo_expiry_def r bindE_Inr Let_def year_byte [OF assms(1)]
          month_byte [OF assms(2)])
  qed
  show ?thesis
    by (simp only: printTracksInfo_def Let_def assms(3) pan expiry bindE_Inr) simp
qed

theorem printTracksInfo_track2_witness:
  "printTracksInfo HEX
     ((CCInfo_new example_app0 0 0 0 0)\<lparr>track2EquivalentData :=
        \<lparr>apdu_size = 11,
         apdu_data = [0x12, 0x34, 0x56, 0x78, 0x90, 0x12, 0x34, 0x56, 0xD1, 0x50, 0x60]\<rparr>\<rparr>) =
     Inr (''PAN: 1234 5678 9012 3456 '' @ endl @ ''Expiry date: 06/2015'' @ endl)"
proof -
  let ?st = "(CCInfo_new example_app0 0 0 0 0)\<lparr>track2EquivalentData :=
        \<lparr>apdu_size = 11,
         apdu_data = [0x12, 0x34, 0x56, 0x78, 0x90, 0x12, 0x34, 0x56, 0xD1, 0x50, 0x60]\<rparr>\<rparr>"
  have h1: "(0xD1 :: byte_t) AND 0x0F = 0x01" by simp
  have h2: "drop_bit 4 (0x60 :: byte_t) = 0x06" by simp
  have h3: "apdu_data (track2EquivalentData ?st) =
           [0x12, 0x34, 0x56, 0x78, 0x90, 0x12, 0x34, 0x56, 0xD1, 0x50, 0x60] @ []"
    by simp
  show ?thesis
    using printTracksInfo_track2 [OF h1 h2 h3, of HEX]
    by (simp add: HEX_def hex_digit_def)
qed

text \<open>
  The amount loop on a value of 6 bytes: the zero bytes that lead the first 4 are
  skipped, and the point is written after the 5th byte.
\<close>

lemma printPaylog_amount_six:
  "printPaylog_amount hex [b0, b1, b2, b3, b4, b5] 0 0 6 True =
     Inr (concat (map hex (dropWhile (\<lambda>b. b = 0) [b0, b1, b2, b3])) @ hex b4 @ ''.'' @ hex b5, 6)"
  by (simp add: printPaylog_amount.simps rd_def)

text \<open>
  C5: the decoder on the format \<open>9F 02 06\<close>. For the value \<open>00 00 12 34 56 78\<close> it
  writes \<open>123456.78\<close>: the two leading zero bytes are suppressed, and the decimal point
  follows the 5th byte (\<open>56\<close>) instead of preceding it.
\<close>

theorem printPaylog_amount_point:
  "printPaylog_format HEX [0x9F, 0x02, 0x06] 3 [0x00, 0x00, 0x12, 0x34, 0x56, 0x78] 0 0 =
     Inr ''Amount: 123456.78; '' \<and>
   printPaylog_format hex [0x9F, 0x02, 0x06] 3 [b0, b1, b2, b3, b4, b5] 0 0 =
     Inr (''Amount: '' @ concat (map hex (dropWhile (\<lambda>b. b = 0) [b0, b1, b2, b3])) @
          hex b4 @ ''.'' @ hex b5 @ ''; '')"
proof -
  have g: "printPaylog_format hex [0x9F, 0x02, 0x06] 3 [b0, b1, b2, b3, b4, b5] 0 0 =
     Inr (''Amount: '' @ concat (map hex (dropWhile (\<lambda>b. b = 0) [b0, b1, b2, b3])) @
          hex b4 @ ''.'' @ hex b5 @ ''; '')" for hex b0 b1 b2 b3 b4 b5
    by (simp add: printPaylog_format.simps printPaylog_field_def printPaylog_field2_def rd_def
        printPaylog_labelled_def table_at_def logFormatTags_def printPaylog_amount_six)
  show ?thesis
    by (simp add: g HEX_def hex_digit_def)
qed

text \<open>
  A log of two entries under the format date, time, amount, currency, type, merchant,
  with the entry counter written as one decimal digit.
\<close>

lemma printPaylog_example:
  "printPaylog HEX (\<lambda>n. [char_of (48 + n)])
     ((CCInfo_new example_app0 0 0 0 0)
        \<lparr>logFormat := \<lparr>apdu_size = 18,
           apdu_data = [0x9A, 0x03, 0x9F, 0x21, 0x03, 0x9F, 0x02, 0x06, 0x5F, 0x2A, 0x02,
                        0x9C, 0x01, 0x9F, 0x4E, 0x02, 0x90, 0x00]\<rparr>,
         logEntries :=
           [\<lparr>apdu_size = 19,
              apdu_data = [0x14, 0x05, 0x23, 0x10, 0x22, 0x33, 0x00, 0x00, 0x12, 0x34, 0x56, 0x78,
                           0x09, 0x78, 0x01, 0x41, 0x42, 0x90, 0x00]\<rparr>,
            \<lparr>apdu_size = 19,
              apdu_data = [0x14, 0x05, 0x24, 0x11, 0x00, 0x59, 0x00, 0x00, 0x00, 0x00, 0x56, 0x78,
                           0x09, 0x79, 0x00, 0x41, 0x42, 0x90, 0x00]\<rparr>,
            \<lparr>apdu_size = 0, apdu_data = []\<rparr>]\<rparr>) =
   Inr (''-----------------'' @ endl @ ''-- Paylog --'' @ endl @ ''-----------------'' @ endl @
        ''0: Date: 2014/05/23; Time: 10:22:33; Amount: 123456.78; Currency: EUR; '' @
        ''Type: Withdrawal; Merchant: AB; '' @ endl @
        ''1: Date: 2014/05/24; Time: 11:00:59; Amount: 56.78; Currency: 0979; '' @
        ''Type: Payment; Merchant: AB; '' @ endl)"
  by code_simp

section \<open>Properties of the record extractor\<close>

declare extractBaseRecords_scan.simps [simp del] getAll_scan.simps [simp del]

lemma extractBaseRecords_tag_track2:
  assumes "extractBaseRecords_tag buff sz i st = Inr (i', st')"
    and "apdu_size (track2EquivalentData st) \<noteq> 0"
  shows "track2EquivalentData st' = track2EquivalentData st"
  using assms
  unfolding extractBaseRecords_tag_def extractBaseRecords_track2_def
    extractBaseRecords_name_def extractBaseRecords_track1_def
  by (auto elim!: bindE_InrE split: if_splits)

lemma extractBaseRecords_tag_track1:
  assumes "extractBaseRecords_tag buff sz i st = Inr (i', st')"
    and "apdu_size (track1DiscretionaryData st) \<noteq> 0"
  shows "track1DiscretionaryData st' = track1DiscretionaryData st"
  using assms
  unfolding extractBaseRecords_tag_def extractBaseRecords_track2_def
    extractBaseRecords_name_def extractBaseRecords_track1_def
  by (auto elim!: bindE_InrE split: if_splits)

lemma extractBaseRecords_scan_track2:
  assumes "extractBaseRecords_scan buff sz i st = Inr st'"
    and "apdu_size (track2EquivalentData st) \<noteq> 0"
  shows "track2EquivalentData st' = track2EquivalentData st"
  using assms
proof (induction buff sz i st rule: extractBaseRecords_scan.induct)
  case (1 buff sz i st)
  show ?case
  proof (cases "i < sz")
    case False
    with "1.prems"(1) show ?thesis by (simp add: extractBaseRecords_scan.simps [of buff sz i])
  next
    case True
    with "1.prems"(1) obtain j st1 where
      t: "extractBaseRecords_tag buff sz i st = Inr (j, st1)"
      and s: "extractBaseRecords_scan buff sz (j + 1) st1 = Inr st'"
      by (auto simp: extractBaseRecords_scan.simps [of buff sz i] split: sum.splits)
    have e: "track2EquivalentData st1 = track2EquivalentData st"
      using t "1.prems"(2) by (rule extractBaseRecords_tag_track2)
    with "1.IH" [OF True t refl s] "1.prems"(2) show ?thesis by simp
  qed
qed

lemma extractBaseRecords_scan_track1:
  assumes "extractBaseRecords_scan buff sz i st = Inr st'"
    and "apdu_size (track1DiscretionaryData st) \<noteq> 0"
  shows "track1DiscretionaryData st' = track1DiscretionaryData st"
  using assms
proof (induction buff sz i st rule: extractBaseRecords_scan.induct)
  case (1 buff sz i st)
  show ?case
  proof (cases "i < sz")
    case False
    with "1.prems"(1) show ?thesis by (simp add: extractBaseRecords_scan.simps [of buff sz i])
  next
    case True
    with "1.prems"(1) obtain j st1 where
      t: "extractBaseRecords_tag buff sz i st = Inr (j, st1)"
      and s: "extractBaseRecords_scan buff sz (j + 1) st1 = Inr st'"
      by (auto simp: extractBaseRecords_scan.simps [of buff sz i] split: sum.splits)
    have e: "track1DiscretionaryData st1 = track1DiscretionaryData st"
      using t "1.prems"(2) by (rule extractBaseRecords_tag_track1)
    with "1.IH" [OF True t refl s] "1.prems"(2) show ?thesis by simp
  qed
qed

lemma extractBaseRecords_loop_keeps:
  assumes "extractBaseRecords_loop tr rrec pairs dev r st = Inr (st', dev', r')"
  shows "(apdu_size (track2EquivalentData st) \<noteq> 0 \<longrightarrow>
            track2EquivalentData st' = track2EquivalentData st) \<and>
         (apdu_size (track1DiscretionaryData st) \<noteq> 0 \<longrightarrow>
            track1DiscretionaryData st' = track1DiscretionaryData st)"
  using assms
proof (induction pairs arbitrary: dev r st)
  case Nil
  then show ?case by simp
next
  case (Cons p pairs)
  obtain sfi recno where p: "p = (sfi, recno)" by (cases p)
  let ?cmd = "rrec[5 := of_nat (push_bit 3 sfi OR push_bit 2 1), 4 := of_nat recno]"
  obtain dev1 r1 res where ex: "executeCommand tr dev ?cmd = (dev1, r1, res)"
    by (cases "executeCommand tr dev ?cmd") auto
  have unf: "extractBaseRecords_loop tr rrec (p # pairs) dev r st =
      (if apdu_size res = 0 then extractBaseRecords_loop tr rrec pairs dev1 r1 st
       else bindE (extractBaseRecords_scan (apdu_data res) (apdu_size res) 0 st) (\<lambda>st'.
              extractBaseRecords_loop tr rrec pairs dev1 r1 st'))"
    by (simp only: p extractBaseRecords_loop.simps ex prod.case)
  show ?case
  proof (cases "apdu_size res = 0")
    case True
    with Cons.prems have "extractBaseRecords_loop tr rrec pairs dev1 r1 st = Inr (st', dev', r')"
      unfolding unf by simp
    then show ?thesis by (rule Cons.IH)
  next
    case False
    with Cons.prems have
      "bindE (extractBaseRecords_scan (apdu_data res) (apdu_size res) 0 st) (\<lambda>st'.
              extractBaseRecords_loop tr rrec pairs dev1 r1 st') = Inr (st', dev', r')"
      unfolding unf by simp
    then obtain st1 where
      sc: "extractBaseRecords_scan (apdu_data res) (apdu_size res) 0 st = Inr st1"
      and lp: "extractBaseRecords_loop tr rrec pairs dev1 r1 st1 = Inr (st', dev', r')"
      by (rule bindE_InrE)
    from Cons.IH [OF lp] extractBaseRecords_scan_track2 [OF sc] extractBaseRecords_scan_track1 [OF sc]
    show ?thesis by auto
  qed
qed

lemma replicate_16: "replicate 16 x = [x, x, x, x, x, x, x, x, x, x, x, x, x, x, x, x]"
  by (simp add: numeral_eq_Suc)

lemma replicate_4: "replicate 4 x = [x, x, x, x]"
  by (simp add: numeral_eq_Suc)

lemmas extractBaseRecords_eval =
  extractBaseRecords_scan.simps extractBaseRecords_tag_def extractBaseRecords_track2_def
  extractBaseRecords_name_def extractBaseRecords_track1_def at2_def rd_def memcpy_def
  example_card_def CCInfo_new_def replicate_16 replicate_4

text \<open>
  C4, as the specification states it, fails in its second part: a second scan of a
  buffer can store a field that the first scan left empty. In the first scan of
  \<open>9F 1F 03 57 01 AA 90 00\<close> the bytes \<open>57 01 AA\<close> are the value of the tag
  \<open>9F 1F\<close> and are skipped; in the second scan that tag is ignored, since the field is
  stored, and the same bytes are read as a tag \<open>57\<close> of length 1.
\<close>

theorem extractBaseRecords_scan_twice_counterexample:
  "extractBaseRecords_scan [0x9F, 0x1F, 0x03, 0x57, 0x01, 0xAA, 0x90, 0x00] 8 0 example_card =
     Inr (example_card\<lparr>track1DiscretionaryData :=
            \<lparr>apdu_size = 3, apdu_data = [0x57, 0x01, 0xAA, 0, 0, 0, 0, 0, 0, 0, 0, 0, 0, 0, 0, 0]\<rparr>\<rparr>) \<and>
   extractBaseRecords_scan [0x9F, 0x1F, 0x03, 0x57, 0x01, 0xAA, 0x90, 0x00] 8 0
     (example_card\<lparr>track1DiscretionaryData :=
            \<lparr>apdu_size = 3, apdu_data = [0x57, 0x01, 0xAA, 0, 0, 0, 0, 0, 0, 0, 0, 0, 0, 0, 0, 0]\<rparr>\<rparr>) =
     Inr (example_card\<lparr>track1DiscretionaryData :=
            \<lparr>apdu_size = 3, apdu_data = [0x57, 0x01, 0xAA, 0, 0, 0, 0, 0, 0, 0, 0, 0, 0, 0, 0, 0]\<rparr>,
          track2EquivalentData :=
            \<lparr>apdu_size = 1, apdu_data = [0xAA, 0, 0, 0, 0, 0, 0, 0, 0, 0, 0, 0, 0, 0, 0, 0]\<rparr>\<rparr>) \<and>
   track2EquivalentData
     (example_card\<lparr>track1DiscretionaryData :=
            \<lparr>apdu_size = 3, apdu_data = [0x57, 0x01, 0xAA, 0, 0, 0, 0, 0, 0, 0, 0, 0, 0, 0, 0, 0]\<rparr>,
          track2EquivalentData :=
            \<lparr>apdu_size = 1, apdu_data = [0xAA, 0, 0, 0, 0, 0, 0, 0, 0, 0, 0, 0, 0, 0, 0, 0]\<rparr>\<rparr>) \<noteq>
   track2EquivalentData
     (example_card\<lparr>track1DiscretionaryData :=
            \<lparr>apdu_size = 3, apdu_data = [0x57, 0x01, 0xAA, 0, 0, 0, 0, 0, 0, 0, 0, 0, 0, 0, 0, 0]\<rparr>\<rparr>)"
  by (simp add: extractBaseRecords_eval)

text \<open>
  C4, amended: once the track-2 equivalent data (tag \<open>57\<close>) or the track-1 discretionary data
  (tag \<open>9F 1F\<close>) has a non-zero size, nothing that the extractor processes afterwards
  changes it: not the rest of the scan of a response, from any index, not the responses
  to the later reads, not the whole extraction. In particular a field that the scan of
  a buffer leaves with a non-zero size is the same after a second scan of that buffer.
\<close>

theorem extractBaseRecords_first_wins:
  "(extractBaseRecords_scan buff sz i st = Inr sta \<longrightarrow>
      (apdu_size (track2EquivalentData st) \<noteq> 0 \<longrightarrow>
         track2EquivalentData sta = track2EquivalentData st) \<and>
      (apdu_size (track1DiscretionaryData st) \<noteq> 0 \<longrightarrow>
         track1DiscretionaryData sta = track1DiscretionaryData st)) \<and>
   (extractBaseRecords_loop tr rrec pairs dev r st = Inr (stb, devb, rb) \<longrightarrow>
      (apdu_size (track2EquivalentData st) \<noteq> 0 \<longrightarrow>
         track2EquivalentData stb = track2EquivalentData st) \<and>
      (apdu_size (track1DiscretionaryData st) \<noteq> 0 \<longrightarrow>
         track1DiscretionaryData stb = track1DiscretionaryData st)) \<and>
   (extractBaseRecords tr dev r rrec from_sfi to_sfi from_record to_record st =
      Inr (rc, stc, devc, rxc) \<longrightarrow>
      (apdu_size (track2EquivalentData st) \<noteq> 0 \<longrightarrow>
         track2EquivalentData stc = track2EquivalentData st) \<and>
      (apdu_size (track1DiscretionaryData st) \<noteq> 0 \<longrightarrow>
         track1DiscretionaryData stc = track1DiscretionaryData st)) \<and>
   (extractBaseRecords_scan buff sz 0 st = Inr once \<and>
    extractBaseRecords_scan buff sz 0 once = Inr twice \<longrightarrow>
      (apdu_size (track2EquivalentData once) \<noteq> 0 \<longrightarrow>
         track2EquivalentData twice = track2EquivalentData once) \<and>
      (apdu_size (track1DiscretionaryData once) \<noteq> 0 \<longrightarrow>
         track1DiscretionaryData twice = track1DiscretionaryData once))"
proof (intro conjI impI)
  assume "extractBaseRecords tr dev r rrec from_sfi to_sfi from_record to_record st =
      Inr (rc, stc, devc, rxc)"
  then have l: "extractBaseRecords_loop tr rrec
              (concat (map (\<lambda>sfi. map (\<lambda>recno. (sfi, recno)) [from_record..<to_record + 1])
                        [from_sfi..<to_sfi + 1])) dev r st = Inr (stc, devc, rxc)"
    unfolding extractBaseRecords_def by (auto elim!: bindE_InrE)
  {
    assume "apdu_size (track2EquivalentData st) \<noteq> 0"
    then show "track2EquivalentData stc = track2EquivalentData st"
      using extractBaseRecords_loop_keeps [OF l] by simp
  }
  {
    assume "apdu_size (track1DiscretionaryData st) \<noteq> 0"
    then show "track1DiscretionaryData stc = track1DiscretionaryData st"
      using extractBaseRecords_loop_keeps [OF l] by simp
  }
qed (auto dest: extractBaseRecords_scan_track2 extractBaseRecords_scan_track1
       extractBaseRecords_loop_keeps)

theorem extractBaseRecords_first_wins_witness:
  "extractBaseRecords_scan [0x70, 0x04, 0x57, 0x02, 0x11, 0x22, 0x90, 0x00] 8 0 example_card =
     Inr (example_card\<lparr>track2EquivalentData :=
            \<lparr>apdu_size = 2, apdu_data = [0x11, 0x22, 0, 0, 0, 0, 0, 0, 0, 0, 0, 0, 0, 0, 0, 0]\<rparr>\<rparr>) \<and>
   track2EquivalentData (projr
     (extractBaseRecords_scan [0x70, 0x04, 0x57, 0x02, 0x33, 0x44, 0x90, 0x00] 8 0
        (example_card\<lparr>track2EquivalentData :=
            \<lparr>apdu_size = 2, apdu_data = [0x11, 0x22, 0, 0, 0, 0, 0, 0, 0, 0, 0, 0, 0, 0, 0, 0]\<rparr>\<rparr>))) =
     \<lparr>apdu_size = 2, apdu_data = [0x11, 0x22, 0, 0, 0, 0, 0, 0, 0, 0, 0, 0, 0, 0, 0, 0]\<rparr> \<and>
   track2EquivalentData (projr
     (bindE (extractBaseRecords_scan [0x70, 0x04, 0x57, 0x02, 0x11, 0x22, 0x90, 0x00] 8 0 example_card)
        (extractBaseRecords_scan [0x70, 0x04, 0x57, 0x02, 0x11, 0x22, 0x90, 0x00] 8 0))) =
     \<lparr>apdu_size = 2, apdu_data = [0x11, 0x22, 0, 0, 0, 0, 0, 0, 0, 0, 0, 0, 0, 0, 0, 0]\<rparr>"
proof -
  let ?st = "example_card\<lparr>track2EquivalentData :=
            \<lparr>apdu_size = 2, apdu_data = [0x11, 0x22, 0, 0, 0, 0, 0, 0, 0, 0, 0, 0, 0, 0, 0, 0]\<rparr>\<rparr>"
  have one: "extractBaseRecords_scan [0x70, 0x04, 0x57, 0x02, 0x11, 0x22, 0x90, 0x00] 8 0 example_card =
     Inr ?st"
    by (simp add: extractBaseRecords_eval)
  obtain st1 where two:
    "extractBaseRecords_scan [0x70, 0x04, 0x57, 0x02, 0x33, 0x44, 0x90, 0x00] 8 0 ?st = Inr st1"
    by (simp add: extractBaseRecords_eval)
  obtain st2 where again:
    "extractBaseRecords_scan [0x70, 0x04, 0x57, 0x02, 0x11, 0x22, 0x90, 0x00] 8 0 ?st = Inr st2"
    by (simp add: extractBaseRecords_eval)
  have nz: "apdu_size (track2EquivalentData ?st) \<noteq> 0" by simp
  from extractBaseRecords_first_wins
    [where buff = "[0x70, 0x04, 0x57, 0x02, 0x33, 0x44, 0x90, 0x00]" and sz = 8 and i = 0
       and st = ?st and sta = st1, THEN conjunct1]
  have a: "track2EquivalentData st1 = track2EquivalentData ?st" using two nz by blast
  from extractBaseRecords_first_wins
    [where buff = "[0x70, 0x04, 0x57, 0x02, 0x11, 0x22, 0x90, 0x00]" and sz = 8
       and st = example_card and once = ?st and twice = st2,
     THEN conjunct2, THEN conjunct2, THEN conjunct2]
  have b: "track2EquivalentData st2 = track2EquivalentData ?st" using one again nz by blast
  show ?thesis using one two again a b by simp
qed

text \<open>
  A whole extraction over the files 1 and 2 and the records 1 and 2: the second answer
  stores \<open>11 22\<close>, the third, with \<open>33 44\<close> under the same tag, changes nothing.
\<close>

lemma extractBaseRecords_example:
  "map_sum id (\<lambda>(rc, st, dev, r). (rc, track2EquivalentData st, dev))
     (extractBaseRecords (logging scripted)
       ([(- 1, []), (9, [0x00, 0x70, 0x04, 0x57, 0x02, 0x11, 0x22, 0x90, 0x00]),
         (9, [0x00, 0x70, 0x04, 0x57, 0x02, 0x33, 0x44, 0x90, 0x00]), (- 1, [])], [])
       \<lparr>szRx = 0, abtRx = []\<rparr> [0x40, 0x01, 0x00, 0xB2, 0x00, 0x00, 0x00] 1 2 1 2 example_card) =
   Inr (0, \<lparr>apdu_size = 2, apdu_data = [0x11, 0x22, 0, 0, 0, 0, 0, 0, 0, 0, 0, 0, 0, 0, 0, 0]\<rparr>,
        ([], [([0x40, 0x01, 0x00, 0xB2, 0x01, 0x0C, 0x00], - 1, []),
              ([0x40, 0x01, 0x00, 0xB2, 0x02, 0x0C, 0x00], 9, [0x00, 0x70, 0x04, 0x57, 0x02, 0x11, 0x22, 0x90, 0x00]),
              ([0x40, 0x01, 0x00, 0xB2, 0x01, 0x14, 0x00], 9, [0x00, 0x70, 0x04, 0x57, 0x02, 0x33, 0x44, 0x90, 0x00]),
              ([0x40, 0x01, 0x00, 0xB2, 0x02, 0x14, 0x00], - 1, [])]))"
  by code_simp

section \<open>Properties of application discovery\<close>

text \<open>
  When the exchange fails the list is empty, and so it is when the reply holds no byte
  \<open>0x61\<close>; discovery does not fail in either case.
\<close>

lemma getAll_failed:
  assumes "executeCommand tr dev select_ppse = (dev', r, res)" and "apdu_size res = 0"
  shows "getAll tr dev select_ppse app0 = Inr ([], dev', r)"
  using assms by (simp add: getAll_def)

lemma getAll_scan_no_template:
  assumes "\<forall>k. i \<le> k \<and> k < sz \<longrightarrow> k < length buf \<and> buf ! k \<noteq> 0x61"
  shows "getAll_scan app0 buf sz i list = Inr list"
  using assms
proof (induction "sz - i" arbitrary: i)
  case 0
  then show ?case by (simp add: getAll_scan.simps [of app0 buf sz i])
next
  case (Suc n)
  then have lt: "i < sz" by simp
  with Suc.prems have b: "i < length buf" "buf ! i \<noteq> 0x61" by auto
  have "getAll_scan app0 buf sz (i + 1) list = Inr list"
    using Suc.hyps(2) Suc.prems by (intro Suc.hyps(1)) auto
  then show ?case using lt b by (simp add: getAll_scan.simps [of app0 buf sz i] rd_def)
qed

lemma getAll_no_template:
  assumes "executeCommand tr dev select_ppse = (dev', r, res)" and "apdu_size res \<noteq> 0"
    and "nat (szRx r) \<le> length (abtRx r)" and "0x61 \<notin> set (reply r)"
  shows "getAll tr dev select_ppse app0 = Inr ([], dev', r)"
proof -
  have "\<forall>k. 0 \<le> k \<and> k < nat (szRx r) \<longrightarrow> k < length (abtRx r) \<and> abtRx r ! k \<noteq> 0x61"
  proof (intro allI impI)
    fix k assume k: "0 \<le> k \<and> k < nat (szRx r)"
    then have "k < length (reply r)" using assms(3) by (simp add: reply_def)
    then have "reply r ! k \<in> set (reply r)" by (rule nth_mem)
    moreover have "reply r ! k = abtRx r ! k" using k by (simp add: reply_def)
    ultimately show "k < length (abtRx r) \<and> abtRx r ! k \<noteq> 0x61"
      using assms(3,4) k by auto
  qed
  then have "getAll_scan app0 (abtRx r) (nat (szRx r)) 0 [] = Inr []"
    by (rule getAll_scan_no_template)
  then show ?thesis using assms(1,2) by (simp add: getAll_def)
qed

text \<open>
  C7: discovery on a directory with one application template (tag \<open>61\<close>, length
  \<open>12\<close>) that holds the identifier \<open>A0 00 00 00 03 10 10\<close>, the label \<open>Visa\<close> and
  the priority 1. The inner loop stops on the last byte of the label, \<open>a\<close> = \<open>0x61\<close>,
  and the outer loop starts a second template there: the list has two applications, the
  first without the priority, the second without the identifier and the label.
\<close>

theorem getAll_label_ends_template:
  "getAll scripted
     [(23, [0x00, 0x61, 0x12, 0x4F, 0x07, 0xA0, 0x00, 0x00, 0x00, 0x03, 0x10, 0x10,
            0x50, 0x04, 0x56, 0x69, 0x73, 0x61, 0x87, 0x01, 0x01, 0x90, 0x00, 0x00, 0x00])]
     [0x00, 0xA4, 0x04, 0x00] example_app0 =
   Inr ([\<lparr>aid = [0xA0, 0x00, 0x00, 0x00, 0x03, 0x10, 0x10],
          name = [0x56, 0x69, 0x73, 0x61, 0, 0, 0, 0], priority = 0\<rparr>,
         \<lparr>aid = [0, 0, 0, 0, 0, 0, 0], name = [0, 0, 0, 0, 0, 0, 0, 0], priority = 1\<rparr>],
        [],
        \<lparr>szRx = 23,
          abtRx = [0x00, 0x61, 0x12, 0x4F, 0x07, 0xA0, 0x00, 0x00, 0x00, 0x03, 0x10, 0x10,
                   0x50, 0x04, 0x56, 0x69, 0x73, 0x61, 0x87, 0x01, 0x01, 0x90, 0x00, 0x00, 0x00]\<rparr>)"
  by code_simp

text \<open>
  The same directory with the label \<open>VISA\<close>, which does not end in \<open>0x61\<close>: one
  application, with its identifier, label and priority.
\<close>

lemma getAll_one_template:
  "getAll scripted
     [(23, [0x00, 0x61, 0x12, 0x4F, 0x07, 0xA0, 0x00, 0x00, 0x00, 0x03, 0x10, 0x10,
            0x50, 0x04, 0x56, 0x49, 0x53, 0x41, 0x87, 0x01, 0x01, 0x90, 0x00, 0x00, 0x00])]
     [0x00, 0xA4, 0x04, 0x00] example_app0 =
   Inr ([\<lparr>aid = [0xA0, 0x00, 0x00, 0x00, 0x03, 0x10, 0x10],
          name = [0x56, 0x49, 0x53, 0x41, 0, 0, 0, 0], priority = 1\<rparr>],
        [],
        \<lparr>szRx = 23,
          abtRx = [0x00, 0x61, 0x12, 0x4F, 0x07, 0xA0, 0x00, 0x00, 0x00, 0x03, 0x10, 0x10,
                   0x50, 0x04, 0x56, 0x49, 0x53, 0x41, 0x87, 0x01, 0x01, 0x90, 0x00, 0x00, 0x00]\<rparr>)"
  by code_simp

end
